theory Spec2Isabelle
  imports Complex_Main "HOL-Library.AList"
begin

section \<open>JavaScript numbers\<close>

subsection \<open>Rounding to a double\<close>

text \<open>
  The detectors and the recommendation engine compute with JavaScript numbers, which are
  IEEE 754 doubles: every arithmetic operation returns the double nearest to the exact
  result, a tie going to the double with an even significand. A double has a significand
  of 53 bits and an exponent of at least -1022, below which the spacing of the doubles
  stays at \<open>2 powi (- 1074)\<close>; a result that rounds to \<open>2 ^ 1024\<close> or more overflows to an
  infinity.
\<close>

definition round_even :: "real \<Rightarrow> int" where
  "round_even m =
     (let f = \<lfloor>m\<rfloor>; d = m - of_int f
      in if d < 1 / 2 then f else if 1 / 2 < d then f + 1 else if even f then f else f + 1)"

definition expo :: "real \<Rightarrow> int" where
  "expo x = (if \<bar>x\<bar> < 2 powi (- 1022) then - 1022 else \<lfloor>log 2 \<bar>x\<bar>\<rfloor>)"

definition quantum :: "real \<Rightarrow> real" where
  "quantum x = 2 powi (expo x - 52)"

definition rnd :: "real \<Rightarrow> real" where
  "rnd x = sgn x * of_int (round_even (\<bar>x\<bar> / quantum x)) * quantum x"

definition huge :: real where
  "huge = 2 ^ 1024"

subsection \<open>Numbers and their operations\<close>

text \<open>
  A number is a finite value, an infinity or \<open>NaN\<close>. \<open>Fin x\<close> stands for the double
  nearest to \<open>x\<close>, as a numeric literal does in the source: every operation first brings
  its operands to that double (\<open>canon\<close>), computes on doubles and rounds its result
  (\<open>rd\<close>). Zero carries no sign: the zero divisors that arise in the modelled code are
  positive zeros (a square root, a difference of equal numbers, a sum started at 0).
\<close>

datatype jsnum = Fin real | PInf | NInf | NaN

definition rd :: "real \<Rightarrow> jsnum" where
  "rd x = (if huge \<le> \<bar>rnd x\<bar> then (if 0 < x then PInf else NInf) else Fin (rnd x))"

fun canon :: "jsnum \<Rightarrow> jsnum" where
  "canon (Fin a) = rd a"
| "canon PInf = PInf"
| "canon NInf = NInf"
| "canon NaN = NaN"

fun is_neg :: "jsnum \<Rightarrow> bool" where
  "is_neg (Fin a) = (a < 0)"
| "is_neg NInf = True"
| "is_neg PInf = False"
| "is_neg NaN = False"

fun js_neg :: "jsnum \<Rightarrow> jsnum" where
  "js_neg (Fin a) = Fin (- a)"
| "js_neg PInf = NInf"
| "js_neg NInf = PInf"
| "js_neg NaN = NaN"

text \<open>The operations on operands that are doubles already.\<close>

fun add_d :: "jsnum \<Rightarrow> jsnum \<Rightarrow> jsnum" where
  "add_d (Fin a) (Fin b) = rd (a + b)"
| "add_d NaN _ = NaN"
| "add_d _ NaN = NaN"
| "add_d PInf NInf = NaN"
| "add_d NInf PInf = NaN"
| "add_d PInf _ = PInf"
| "add_d _ PInf = PInf"
| "add_d NInf _ = NInf"
| "add_d _ NInf = NInf"

fun mul_d :: "jsnum \<Rightarrow> jsnum \<Rightarrow> jsnum" where
  "mul_d (Fin a) (Fin b) = rd (a * b)"
| "mul_d NaN _ = NaN"
| "mul_d _ NaN = NaN"
| "mul_d (Fin a) y = (if a = 0 then NaN else if (a < 0) = is_neg y then PInf else NInf)"
| "mul_d x (Fin b) = (if b = 0 then NaN else if is_neg x = (b < 0) then PInf else NInf)"
| "mul_d x y = (if is_neg x = is_neg y then PInf else NInf)"

fun div_d :: "jsnum \<Rightarrow> jsnum \<Rightarrow> jsnum" where
  "div_d (Fin a) (Fin b) =
     (if b \<noteq> 0 then rd (a / b)
      else if a = 0 then NaN
      else if 0 < a then PInf else NInf)"
| "div_d NaN _ = NaN"
| "div_d _ NaN = NaN"
| "div_d (Fin a) _ = Fin 0"
| "div_d x (Fin b) = (if is_neg x = (b < 0) then PInf else NInf)"
| "div_d _ _ = NaN"

fun abs_d :: "jsnum \<Rightarrow> jsnum" where
  "abs_d (Fin a) = Fin \<bar>a\<bar>"
| "abs_d PInf = PInf"
| "abs_d NInf = PInf"
| "abs_d NaN = NaN"

fun sqrt_d :: "jsnum \<Rightarrow> jsnum" where
  "sqrt_d (Fin a) = (if a < 0 then NaN else rd (sqrt a))"
| "sqrt_d PInf = PInf"
| "sqrt_d NInf = NaN"
| "sqrt_d NaN = NaN"

fun lt_d :: "jsnum \<Rightarrow> jsnum \<Rightarrow> bool" where
  "lt_d (Fin a) (Fin b) = (a < b)"
| "lt_d NaN _ = False"
| "lt_d _ NaN = False"
| "lt_d PInf _ = False"
| "lt_d _ NInf = False"
| "lt_d _ _ = True"

fun le_d :: "jsnum \<Rightarrow> jsnum \<Rightarrow> bool" where
  "le_d (Fin a) (Fin b) = (a \<le> b)"
| "le_d NaN _ = False"
| "le_d _ NaN = False"
| "le_d NInf _ = True"
| "le_d _ PInf = True"
| "le_d _ _ = False"

fun truthy_d :: "jsnum \<Rightarrow> bool" where
  "truthy_d (Fin a) = (a \<noteq> 0)"
| "truthy_d NaN = False"
| "truthy_d PInf = True"
| "truthy_d NInf = True"

text \<open>The operations of the source: \<open>+\<close>, \<open>-\<close>, \<open>*\<close>, \<open>/\<close>, \<open>Math.abs\<close>, \<open>Math.sqrt\<close>.\<close>

definition js_add :: "jsnum \<Rightarrow> jsnum \<Rightarrow> jsnum" where
  "js_add a b = add_d (canon a) (canon b)"

definition js_sub :: "jsnum \<Rightarrow> jsnum \<Rightarrow> jsnum" where
  "js_sub a b = js_add a (js_neg b)"

definition js_mul :: "jsnum \<Rightarrow> jsnum \<Rightarrow> jsnum" where
  "js_mul a b = mul_d (canon a) (canon b)"

definition js_div :: "jsnum \<Rightarrow> jsnum \<Rightarrow> jsnum" where
  "js_div a b = div_d (canon a) (canon b)"

definition js_abs :: "jsnum \<Rightarrow> jsnum" where
  "js_abs a = abs_d (canon a)"

definition js_sqrt :: "jsnum \<Rightarrow> jsnum" where
  "js_sqrt a = sqrt_d (canon a)"

text \<open>The comparison operators: every comparison with \<open>NaN\<close> is false.\<close>

definition js_lt :: "jsnum \<Rightarrow> jsnum \<Rightarrow> bool" where
  "js_lt a b = lt_d (canon a) (canon b)"

definition js_le :: "jsnum \<Rightarrow> jsnum \<Rightarrow> bool" where
  "js_le a b = le_d (canon a) (canon b)"

definition js_gt :: "jsnum \<Rightarrow> jsnum \<Rightarrow> bool" where
  "js_gt a b = js_lt b a"

definition js_ge :: "jsnum \<Rightarrow> jsnum \<Rightarrow> bool" where
  "js_ge a b = js_le b a"

text \<open>\<open>Math.min\<close> and \<open>Math.max\<close> return \<open>NaN\<close> as soon as one argument is \<open>NaN\<close>.\<close>

definition js_min :: "jsnum \<Rightarrow> jsnum \<Rightarrow> jsnum" where
  "js_min a b =
     (if canon a = NaN \<or> canon b = NaN then NaN else if js_lt b a then canon b else canon a)"

definition js_max :: "jsnum \<Rightarrow> jsnum \<Rightarrow> jsnum" where
  "js_max a b =
     (if canon a = NaN \<or> canon b = NaN then NaN else if js_lt a b then canon b else canon a)"

text \<open>Truthiness of a number, and \<open>a || b\<close> on numbers: 0 and \<open>NaN\<close> are falsy.\<close>

definition js_truthy :: "jsnum \<Rightarrow> bool" where
  "js_truthy a = truthy_d (canon a)"

definition js_or :: "jsnum \<Rightarrow> jsnum \<Rightarrow> jsnum" where
  "js_or a b = (if js_truthy a then canon a else canon b)"

text \<open>
  \<open>parseFloat(x.toFixed(2))\<close>: a finite number is rounded to two decimals, a tie going
  away from zero, and the decimal is read back as a number; \<open>NaN\<close> and the infinities
  print and parse back as themselves.
\<close>

fun toFixed2_d :: "jsnum \<Rightarrow> jsnum" where
  "toFixed2_d (Fin a) = Fin (sgn a * of_int \<lfloor>\<bar>a\<bar> * 100 + 1 / 2\<rfloor> / 100)"
| "toFixed2_d x = x"

definition toFixed2 :: "jsnum \<Rightarrow> jsnum" where
  "toFixed2 x = toFixed2_d (canon x)"

text \<open>The scores a detector is meant to produce: finite numbers between 0 and 1.\<close>

fun in_unit_interval :: "jsnum \<Rightarrow> bool" where
  "in_unit_interval (Fin a) = (0 \<le> a \<and> a \<le> 1)"
| "in_unit_interval _ = False"

section \<open>The anomaly detector\<close>

subsection \<open>Data\<close>

text \<open>
  One dividend record of the input series. Its numbers are finite; each stands for the
  double nearest to it.
\<close>

record observation =
  date :: string
  "value" :: real
  price :: real
  yield :: real

text \<open>
  The part of the detector's configuration that the statistical methods, the ensemble
  and the cache read.
\<close>

record detectorConfig =
  zScoreThreshold :: real
  iqrMultiplier :: real
  useAutoencoder :: bool
  ensembleMethod :: string
  useCache :: bool
  cacheExpiration :: int

text \<open>The configuration the constructor builds from an empty \<open>config\<close> object.\<close>

definition defaultDetectorConfig :: detectorConfig where
  "defaultDetectorConfig =
     \<lparr>zScoreThreshold = 2.5, iqrMultiplier = 1.5, useAutoencoder = True,
      ensembleMethod = ''majority'', useCache = True,
      cacheExpiration = 24 * 60 * 60 * 1000\<rparr>"

text \<open>
  The result of one detection method. \<open>anomalyScores\<close> is the object keyed by index;
  a key that was never assigned reads as \<open>undefined\<close>, here \<open>None\<close>.
\<close>

record methodResult =
  anomalyIndices :: "nat list"
  anomalyScores :: "nat \<rightharpoonup> jsnum"
  threshold :: jsnum

subsection \<open>Mean and standard deviation\<close>

definition calculateMean :: "real list \<Rightarrow> jsnum" where
  "calculateMean values =
     (if length values = 0 then Fin 0
      else js_div (foldl (\<lambda>sum val. js_add sum (Fin val)) (Fin 0) values)
                  (Fin (real (length values))))"

text \<open>\<open>Math.pow(x, 2)\<close> is the rounded product of \<open>x\<close> with itself.\<close>

definition js_pow2 :: "jsnum \<Rightarrow> jsnum" where
  "js_pow2 x = js_mul x x"

definition calculateStdDev :: "real list \<Rightarrow> jsnum option \<Rightarrow> jsnum" where
  "calculateStdDev values mean =
     (if length values \<le> 1 then Fin 0
      else
        let avg = (case mean of Some m \<Rightarrow> m | None \<Rightarrow> calculateMean values);
            squaredDiffs = map (\<lambda>val. js_pow2 (js_sub (Fin val) avg)) values;
            variance = js_div (foldl (\<lambda>sum val. js_add sum val) (Fin 0) squaredDiffs)
                              (Fin (real (length values)))
        in js_sqrt variance)"

subsection \<open>The Z-score detector\<close>

text \<open>
  The body of the \<open>forEach\<close> over the z-scores: the normalised score is stored for
  every index, the index is pushed when its z-score is over the threshold.
\<close>

definition zScoreStep ::
  "detectorConfig \<Rightarrow> nat \<times> jsnum \<Rightarrow> nat list \<times> (nat \<rightharpoonup> jsnum) \<Rightarrow> nat list \<times> (nat \<rightharpoonup> jsnum)"
where
  "zScoreStep cfg = (\<lambda>(index, zScore) (indices, scores).
     let normalizedScore =
           js_min (js_div zScore (js_mul (Fin (zScoreThreshold cfg)) (Fin 2))) (Fin 1);
         scores' = scores(index \<mapsto> normalizedScore)
     in if js_gt zScore (Fin (zScoreThreshold cfg))
        then (indices @ [index], scores')
        else (indices, scores'))"

definition zScoresOf :: "real list \<Rightarrow> jsnum list" where
  "zScoresOf values =
     (let mean = calculateMean values;
          stdDev = calculateStdDev values (Some mean)
      in map (\<lambda>v. js_abs (js_div (js_sub (Fin v) mean) stdDev)) values)"

definition detectAnomaliesWithZScore :: "detectorConfig \<Rightarrow> real list \<Rightarrow> methodResult" where
  "detectAnomaliesWithZScore cfg values =
     (let zScores = zScoresOf values;
          (indices, scores) = fold (zScoreStep cfg) (enumerate 0 zScores) ([], Map.empty)
      in \<lparr>anomalyIndices = indices, anomalyScores = scores,
          threshold = Fin (zScoreThreshold cfg)\<rparr>)"

subsection \<open>The IQR detector\<close>

text \<open>
  Reading an array past its end gives \<open>undefined\<close>. The quartiles are only used in
  subtractions, where \<open>undefined\<close> counts as \<open>NaN\<close>.
\<close>

definition js_index :: "real list \<Rightarrow> nat \<Rightarrow> jsnum" where
  "js_index xs i = (if i < length xs then Fin (xs ! i) else NaN)"

definition iqrBounds :: "detectorConfig \<Rightarrow> real list \<Rightarrow> jsnum \<times> jsnum" where
  "iqrBounds cfg values =
     (let sortedValues = sort values;
          q1Index = nat \<lfloor>real (length sortedValues) * 0.25\<rfloor>;
          q3Index = nat \<lfloor>real (length sortedValues) * 0.75\<rfloor>;
          q1 = js_index sortedValues q1Index;
          q3 = js_index sortedValues q3Index;
          iqr = js_sub q3 q1;
          lowerBound = js_sub q1 (js_mul iqr (Fin (iqrMultiplier cfg)));
          upperBound = js_add q3 (js_mul iqr (Fin (iqrMultiplier cfg)))
      in (lowerBound, upperBound))"

definition insideBounds :: "jsnum \<Rightarrow> jsnum \<Rightarrow> real \<Rightarrow> bool" where
  "insideBounds lowerBound upperBound v =
     (\<not> (js_lt (Fin v) lowerBound \<or> js_gt (Fin v) upperBound))"

definition iqrStep ::
  "jsnum \<Rightarrow> jsnum \<Rightarrow> nat \<times> real \<Rightarrow> nat list \<times> (nat \<rightharpoonup> jsnum) \<Rightarrow> nat list \<times> (nat \<rightharpoonup> jsnum)"
where
  "iqrStep lowerBound upperBound = (\<lambda>(index, v) (indices, scores).
     if js_lt (Fin v) lowerBound \<or> js_gt (Fin v) upperBound then
       let distance =
             (if js_lt (Fin v) lowerBound
              then js_div (js_sub lowerBound (Fin v)) (js_or lowerBound (Fin 1))
              else js_div (js_sub (Fin v) upperBound) (js_or upperBound (Fin 1)))
       in (indices @ [index], scores(index \<mapsto> js_min distance (Fin 1)))
     else
       let range = js_sub upperBound lowerBound;
           distanceFromCenter =
             js_abs (js_sub (Fin v) (js_add lowerBound (js_div range (Fin 2))))
       in (indices, scores(index \<mapsto> js_mul (js_div distanceFromCenter range) (Fin 0.5))))"

text \<open>
  The score that the body of the loop stores for one value, as a function of the value
  and the bounds (lemma \<open>iqrStep_score\<close> relates it to \<open>iqrStep\<close>).
\<close>

definition iqrScore :: "jsnum \<Rightarrow> jsnum \<Rightarrow> real \<Rightarrow> jsnum" where
  "iqrScore lowerBound upperBound v =
     (if js_lt (Fin v) lowerBound \<or> js_gt (Fin v) upperBound then
        js_min (if js_lt (Fin v) lowerBound
                then js_div (js_sub lowerBound (Fin v)) (js_or lowerBound (Fin 1))
                else js_div (js_sub (Fin v) upperBound) (js_or upperBound (Fin 1)))
               (Fin 1)
      else
        js_mul (js_div (js_abs (js_sub (Fin v)
                          (js_add lowerBound (js_div (js_sub upperBound lowerBound) (Fin 2)))))
                       (js_sub upperBound lowerBound))
               (Fin 0.5))"

definition detectAnomaliesWithIQR :: "detectorConfig \<Rightarrow> real list \<Rightarrow> methodResult" where
  "detectAnomaliesWithIQR cfg values =
     (let (lowerBound, upperBound) = iqrBounds cfg values;
          (indices, scores) =
             fold (iqrStep lowerBound upperBound) (enumerate 0 values) ([], Map.empty)
      in \<lparr>anomalyIndices = indices, anomalyScores = scores,
          threshold = Fin (iqrMultiplier cfg)\<rparr>)"

subsection \<open>The ensemble\<close>

text \<open>
  The \<open>methods\<close> object maps a method name to its result; its values are visited in
  insertion order. Assigning a new name appends, assigning an old one replaces in place,
  which is \<open>AList.update\<close>. \<open>allIndices\<close> is a \<open>Set\<close>: insertion order, no duplicates.
\<close>

type_synonym methodMap = "(string \<times> methodResult) list"

type_synonym combineState = "nat list \<times> (nat \<rightharpoonup> nat) \<times> (nat \<rightharpoonup> jsnum)"

definition setAdd :: "nat \<Rightarrow> nat list \<Rightarrow> nat list" where
  "setAdd index allIndices =
     (if index \<in> set allIndices then allIndices else allIndices @ [index])"

text \<open>\<open>method.anomalyScores[index] || d\<close>: a missing, zero or \<open>NaN\<close> score reads as \<open>d\<close>.\<close>

definition scoreOr :: "methodResult \<Rightarrow> nat \<Rightarrow> jsnum \<Rightarrow> jsnum" where
  "scoreOr method index d =
     (case anomalyScores method index of None \<Rightarrow> d | Some s \<Rightarrow> js_or s d)"

definition collectIndex :: "methodResult \<Rightarrow> nat \<Rightarrow> combineState \<Rightarrow> combineState" where
  "collectIndex method index = (\<lambda>(allIndices, indexCounts, indexScores).
     let allIndices' = setAdd index allIndices in
     case indexCounts index of
       Some (Suc c) \<Rightarrow>
         (allIndices', indexCounts(index \<mapsto> Suc c + 1),
          indexScores(index \<mapsto>
            js_add (case indexScores index of Some s \<Rightarrow> s | None \<Rightarrow> NaN)
                   (scoreOr method index (Fin 0))))
     | _ \<Rightarrow>
         (allIndices', indexCounts(index \<mapsto> 1),
          indexScores(index \<mapsto> scoreOr method index (Fin 0))))"

definition collectMethod :: "methodResult \<Rightarrow> combineState \<Rightarrow> combineState" where
  "collectMethod method = fold (collectIndex method) (anomalyIndices method)"

definition collectAll :: "methodMap \<Rightarrow> combineState" where
  "collectAll methods = fold collectMethod (map snd methods) ([], Map.empty, Map.empty)"

definition averageScores :: "(nat \<rightharpoonup> nat) \<Rightarrow> (nat \<rightharpoonup> jsnum) \<Rightarrow> (nat \<rightharpoonup> jsnum)" where
  "averageScores indexCounts indexScores = (\<lambda>index.
     case indexScores index of
       None \<Rightarrow> None
     | Some s \<Rightarrow>
         Some (js_div s (case indexCounts index of Some c \<Rightarrow> Fin (real c) | None \<Rightarrow> NaN)))"

definition combineAnomalyDetections :: "detectorConfig \<Rightarrow> methodMap \<Rightarrow> nat list" where
  "combineAnomalyDetections cfg methods =
     (let (allIndices, indexCounts, indexScores0) = collectAll methods;
          indexScores = averageScores indexCounts indexScores0;
          methodCount = length methods
      in if ensembleMethod cfg = ''majority'' then
           let majority = nat \<lceil>real methodCount / 2\<rceil>
           in filter (\<lambda>index. case indexCounts index of
                                  Some c \<Rightarrow> c \<ge> majority | None \<Rightarrow> False) allIndices
         else if ensembleMethod cfg = ''weighted'' then
           let minScore = Fin 0.6
           in filter (\<lambda>index. case indexScores index of
                                  Some s \<Rightarrow> js_ge s minScore | None \<Rightarrow> False) allIndices
         else allIndices)"

subsection \<open>Anomaly records\<close>

record anomaly =
  date_a :: "string option"
  value_a :: jsnum
  anomalyScore :: jsnum
  severity :: string
  type_a :: string
  deviation :: jsnum
  detectedBy :: "string list"

definition scoreStep :: "nat \<Rightarrow> methodResult \<Rightarrow> jsnum \<times> nat \<Rightarrow> jsnum \<times> nat" where
  "scoreStep index method = (\<lambda>(scoreSum, methodCount).
     if index \<in> set (anomalyIndices method)
     then (js_add scoreSum (scoreOr method index (Fin 1)), methodCount + 1)
     else (scoreSum, methodCount))"

definition severityOf :: "jsnum \<Rightarrow> string" where
  "severityOf score =
     (if js_gt score (Fin 0.8) then ''high''
      else if js_gt score (Fin 0.5) then ''medium''
      else ''low'')"

text \<open>
  The callback of \<open>anomalyIndices.map\<close>. An index past the end of the series reads
  \<open>undefined\<close> for the value (\<open>NaN\<close> in the comparison and the arithmetic) and for the
  date.
\<close>

definition buildAnomaly :: "methodMap \<Rightarrow> real list \<Rightarrow> string list \<Rightarrow> nat \<Rightarrow> anomaly" where
  "buildAnomaly methods values dates index =
     (let (total, methodCount) = fold (scoreStep index) (map snd methods) (Fin 0, 0);
          score =
            (if methodCount > 0 then js_div total (Fin (real methodCount)) else Fin 0);
          v = js_index values index;
          avg = calculateMean values;
          ty = (if js_gt v avg then ''high_value'' else ''low_value'');
          dev = js_mul (js_div (js_sub v avg) avg) (Fin 100)
      in \<lparr>date_a = (if index < length dates then Some (dates ! index) else None),
          value_a = v,
          anomalyScore = score,
          severity = severityOf score,
          type_a = ty,
          deviation = toFixed2 dev,
          detectedBy =
            map fst (filter (\<lambda>(name, method). index \<in> set (anomalyIndices method)) methods)\<rparr>)"

text \<open>
  \<open>anomalies.sort((a, b) => b.anomalyScore - a.anomalyScore)\<close>. The sort is stable; for
  scores that the comparator orders consistently it returns what this insertion sort
  returns. With a \<open>NaN\<close> score the order is left to the engine, the result is a
  rearrangement of the list in every case.
\<close>

fun insertByScore :: "anomaly \<Rightarrow> anomaly list \<Rightarrow> anomaly list" where
  "insertByScore a [] = [a]"
| "insertByScore a (b # bs) =
     (if js_gt (js_sub (anomalyScore b) (anomalyScore a)) (Fin 0)
      then b # insertByScore a bs
      else a # b # bs)"

definition sortAnomalies :: "anomaly list \<Rightarrow> anomaly list" where
  "sortAnomalies as = foldr insertByScore as []"

definition buildAnomalies ::
  "methodMap \<Rightarrow> real list \<Rightarrow> string list \<Rightarrow> nat list \<Rightarrow> anomaly list" where
  "buildAnomalies methods values dates combined =
     sortAnomalies (map (buildAnomaly methods values dates) combined)"

text \<open>
  The method results of the unit test of \<open>combineAnomalyDetections\<close>. The test leaves
  \<open>threshold\<close> out, which the combination never reads.
\<close>

definition mockZScore :: methodResult where
  "mockZScore = \<lparr>anomalyIndices = [11, 14],
     anomalyScores = [11 \<mapsto> Fin 0.9, 14 \<mapsto> Fin 0.8], threshold = NaN\<rparr>"

definition mockIqr :: methodResult where
  "mockIqr = \<lparr>anomalyIndices = [11, 14, 5],
     anomalyScores = [11 \<mapsto> Fin 0.85, 14 \<mapsto> Fin 0.75, 5 \<mapsto> Fin 0.6], threshold = NaN\<rparr>"

definition mockIsolationForest :: methodResult where
  "mockIsolationForest = \<lparr>anomalyIndices = [11, 2],
     anomalyScores = [11 \<mapsto> Fin 0.95, 2 \<mapsto> Fin 0.65], threshold = NaN\<rparr>"

subsection \<open>detectDividendAnomalies\<close>

record stats =
  count :: nat
  percentage :: jsnum

record methodSummary =
  anomalyCount :: nat
  methodThreshold :: jsnum

record detectionResult =
  anomalies :: "anomaly list"
  stats :: stats
  methods :: "(string \<times> methodSummary) list"
  error :: "string option"

text \<open>
  The detector object. The cache key is the JSON text of the array of the strings
  \<open>d.date + d.value\<close>; that text determines the array, so the key is the array itself.
\<close>

record detector =
  config :: detectorConfig
  cache :: "string list \<rightharpoonup> detectionResult \<times> int"
  initialized :: bool

definition newDetector :: "detectorConfig \<Rightarrow> detector" where
  "newDetector cfg = \<lparr>config = cfg, cache = Map.empty, initialized = False\<rparr>"

text \<open>
  What a call reads from outside the detector: the clock, the conversion of a number to
  a string, and the results of the two detectors that work on the engineered features
  (the distance-based one, which uses the exponential function, and the autoencoder, which
  runs in the tensor library and is trained on shuffled batches). Every statement below
  about a call holds for whatever these two detectors return.
\<close>

record callEnv =
  now :: int
  numberToString :: "real \<Rightarrow> string"
  isolationForest :: methodResult
  autoencoder :: methodResult

definition cacheKey :: "(real \<Rightarrow> string) \<Rightarrow> observation list \<Rightarrow> string list" where
  "cacheKey toStr dividendData = map (\<lambda>d. date d @ toStr (value d)) dividendData"

definition isCacheValid :: "detectorConfig \<Rightarrow> int \<Rightarrow> int \<Rightarrow> bool" where
  "isCacheValid cfg clock timestamp = (clock - timestamp < cacheExpiration cfg)"

definition clearCache :: "detector \<Rightarrow> detector" where
  "clearCache det = det\<lparr>cache := Map.empty\<rparr>"

definition degradedResult :: detectionResult where
  "degradedResult =
     \<lparr>anomalies = [], stats = \<lparr>count = 0, percentage = Fin 0\<rparr>, methods = [], error = None\<rparr>"

definition runMethods :: "callEnv \<Rightarrow> detectorConfig \<Rightarrow> real list \<Rightarrow> methodMap" where
  "runMethods env cfg values =
     [(''zScore'', detectAnomaliesWithZScore cfg values),
      (''iqr'', detectAnomaliesWithIQR cfg values),
      (''isolationForest'', isolationForest env)]
     @ (if useAutoencoder cfg then [(''autoencoder'', autoencoder env)] else [])"

definition analyse :: "callEnv \<Rightarrow> detectorConfig \<Rightarrow> observation list \<Rightarrow> detectionResult" where
  "analyse env cfg dividendData =
     (let values = map value dividendData;
          dates = map date dividendData;
          ms = runMethods env cfg values;
          combined = combineAnomalyDetections cfg ms;
          found = buildAnomalies ms values dates combined
      in \<lparr>anomalies = found,
          stats = \<lparr>count = length found,
                   percentage = toFixed2 (js_mul (js_div (Fin (real (length found)))
                                                        (Fin (real (length dividendData))))
                                                (Fin 100))\<rparr>,
          methods = map (\<lambda>(name, m).
                      (name, \<lparr>anomalyCount = length (anomalyIndices m),
                              methodThreshold = threshold m\<rparr>)) ms,
          error = None\<rparr>)"

text \<open>
  The body of the \<open>try\<close> block. \<open>Inl\<close> is an exception thrown inside it: the cache key
  is computed with \<open>dividendData.map\<close> before the data is checked, so a missing series
  (\<open>None\<close>) throws a TypeError there.
\<close>

definition detectBody ::
  "callEnv \<Rightarrow> detector \<Rightarrow> observation list option \<Rightarrow> string + detectionResult \<times> detector"
where
  "detectBody env det0 dividendData =
     (let det = det0\<lparr>initialized := True\<rparr>; cfg = config det in
      case dividendData of
        None \<Rightarrow> Inl ''TypeError''
      | Some dd \<Rightarrow>
          let key = cacheKey (numberToString env) dd in
          (case (if useCache cfg then cache det key else None) of
             Some (cached, timestamp) \<Rightarrow>
               if isCacheValid cfg (now env) timestamp then Inr (cached, det)
               else if length dd < 5 then Inr (degradedResult, det)
               else
                 let result = analyse env cfg dd
                 in Inr (result, det\<lparr>cache := (cache det)(key \<mapsto> (result, now env))\<rparr>)
           | None \<Rightarrow>
               if length dd < 5 then Inr (degradedResult, det)
               else
                 let result = analyse env cfg dd
                 in Inr (result,
                         if useCache cfg
                         then det\<lparr>cache := (cache det)(key \<mapsto> (result, now env))\<rparr>
                         else det)))"

text \<open>The \<open>catch\<close> block turns every exception into the degraded result with a message.\<close>

definition detectDividendAnomalies ::
  "callEnv \<Rightarrow> detector \<Rightarrow> observation list option \<Rightarrow> detectionResult \<times> detector"
where
  "detectDividendAnomalies env det dividendData =
     (case detectBody env det dividendData of
        Inr r \<Rightarrow> r
      | Inl message \<Rightarrow> (degradedResult\<lparr>error := Some message\<rparr>, det\<lparr>initialized := True\<rparr>))"

text \<open>The detectors a program can hold: a new one, and one after any sequence of calls.\<close>

inductive reachable :: "detector \<Rightarrow> bool" where
  fresh: "reachable (newDetector cfg)"
| called: "reachable det \<Longrightarrow> reachable (snd (detectDividendAnomalies env det dividendData))"
| cleared: "reachable det \<Longrightarrow> reachable (clearCache det)"

subsection \<open>Sample inputs\<close>

text \<open>
  The decimal text of the numbers that the sample series hold, an environment in which the
  two feature-based detectors flag nothing, a series with a single spike (nine payments
  of 1 and one of 11), and the anomaly record that the analysis of this series returns
  (lemma \<open>spike_anomalies\<close>).
\<close>

definition sampleToString :: "real \<Rightarrow> string" where
  "sampleToString x =
     (if x = 1 then ''1'' else if x = 11 then ''11''
      else if x = 51 then ''51'' else if x = 511 then ''511'' else [])"

definition quietEnv :: callEnv where
  "quietEnv =
     \<lparr>now = 0, numberToString = sampleToString,
      isolationForest = \<lparr>anomalyIndices = [], anomalyScores = Map.empty, threshold = Fin 0.95\<rparr>,
      autoencoder = \<lparr>anomalyIndices = [], anomalyScores = Map.empty, threshold = NaN\<rparr>\<rparr>"

definition spikeSeries :: "observation list" where
  "spikeSeries =
     map (\<lambda>v. \<lparr>date = ''2024-01-15'', value = v, price = 100, yield = v\<rparr>)
       [1, 1, 1, 1, 1, 1, 1, 1, 1, 11]"

text \<open>
  A second series: nine payments of 51 and one of 511, dated so that each record has the
  same text \<open>date + value\<close> as the record of the first series at its place.
\<close>

definition shiftedSeries :: "observation list" where
  "shiftedSeries =
     map (\<lambda>v. \<lparr>date = ''2024-01-1'', value = v, price = 100, yield = v\<rparr>)
       [51, 51, 51, 51, 51, 51, 51, 51, 51, 511]"

definition spikeAnomaly :: anomaly where
  "spikeAnomaly =
     \<lparr>date_a = Some ''2024-01-15'', value_a = Fin 11,
      anomalyScore = Fin (3602879701896397 / 4503599627370496),
      severity = ''medium'', type_a = ''high_value'', deviation = Fin 450,
      detectedBy = [''zScore'', ''iqr'']\<rparr>"

section \<open>The recommendation engine\<close>

record weights =
  priceForecasting :: jsnum
  sentiment :: jsnum
  anomaliesWeight :: jsnum
  fundamentals :: jsnum

record thresholds =
  strongBuy :: jsnum
  buy :: jsnum
  sell :: jsnum
  strongSell :: jsnum

record engineConfig =
  baseWeights :: weights
  cutoffs :: thresholds

text \<open>The weights and thresholds the constructor builds from an empty \<open>config\<close> object.\<close>

definition defaultEngineConfig :: engineConfig where
  "defaultEngineConfig =
     \<lparr>baseWeights = \<lparr>priceForecasting = Fin 0.4, sentiment = Fin 0.3,
                     anomaliesWeight = Fin 0.2, fundamentals = Fin 0.1\<rparr>,
      cutoffs = \<lparr>strongBuy = Fin 0.7, buy = Fin 0.55, sell = Fin (- 0.55),
                 strongSell = Fin (- 0.7)\<rparr>\<rparr>"










definition determineRecommendation :: "engineConfig \<Rightarrow> jsnum \<Rightarrow> string" where
  "determineRecommendation cfg score =
     (if js_ge score (strongBuy (cutoffs cfg)) then ''strong_buy''
      else if js_ge score (buy (cutoffs cfg)) then ''buy''
      else if js_le score (strongSell (cutoffs cfg)) then ''strong_sell''
      else if js_le score (sell (cutoffs cfg)) then ''sell''
      else ''hold'')"

text \<open>
  The argument of \<open>calculateAnomalyScore\<close> is \<open>mlResults.anomalies\<close>: it can be missing
  (\<open>None\<close>), and when present its \<open>anomalies\<close> field can be missing as well.
\<close>

record anomalyReport =
  reported :: "anomaly list option"

definition anomalyImpact :: "anomaly \<Rightarrow> jsnum" where
  "anomalyImpact a =
     (let impact0 =
            (if type_a a = ''high_value'' then Fin 0.5
             else if type_a a = ''low_value'' then Fin (- 0.5)
             else Fin 0);
          impact1 = js_mul impact0 (js_min (Fin 1) (js_div (js_abs (deviation a)) (Fin 50)));
          severityMultiplier =
            (if severity a = ''high'' then Fin 1.0
             else if severity a = ''medium'' then Fin 0.7 else Fin 0.4)
      in js_mul impact1 severityMultiplier)"

definition calculateAnomalyScore :: "anomalyReport option \<Rightarrow> jsnum" where
  "calculateAnomalyScore report =
     (case report of
        None \<Rightarrow> Fin 0
      | Some r \<Rightarrow>
          (case reported r of
             None \<Rightarrow> Fin 0
           | Some as \<Rightarrow>
               if length as = 0 then Fin 0.1
               else
                 let totalScore = foldl (\<lambda>total a. js_add total (anomalyImpact a)) (Fin 0) as;
                     averaged = js_div totalScore (Fin (real (length as)))
                 in js_max (Fin (- 1)) (js_min (Fin 1) averaged)))"

section \<open>Properties of the rounding\<close>

subsection \<open>The exponent\<close>

lemma floor_log2_iff:
  assumes "0 < y"
  shows "\<lfloor>log 2 y\<rfloor> = k \<longleftrightarrow> 2 powi k \<le> y \<and> y < 2 powi (k + 1)"
proof -
  have a: "(2::real) powr real_of_int k = 2 powi k"
    by (rule powr_real_of_int') simp_all
  have b: "(2::real) powr real_of_int (k + 1) = 2 powi (k + 1)"
    by (rule powr_real_of_int') simp_all
  have "(\<lfloor>log 2 y\<rfloor> = k) = (2 powr real_of_int k \<le> y \<and> y < 2 powr real_of_int (k + 1))"
    by (rule floor_log_eq_powr_iff) (use assms in simp_all)
  then show ?thesis
    unfolding a b .
qed

lemma expo_normal:
  assumes "2 powi (- 1022) \<le> \<bar>x\<bar>"
  shows "2 powi (expo x) \<le> \<bar>x\<bar>" and "\<bar>x\<bar> < 2 powi (expo x + 1)"
proof -
  have pos: "0 < \<bar>x\<bar>"
    using assms by (smt (verit) zero_less_power_int)
  have e: "expo x = \<lfloor>log 2 \<bar>x\<bar>\<rfloor>"
    using assms by (simp add: expo_def)
  from floor_log2_iff [OF pos, of "expo x"] e
  show "2 powi (expo x) \<le> \<bar>x\<bar>" and "\<bar>x\<bar> < 2 powi (expo x + 1)"
    by simp_all
qed

lemma expo_subnormal: "\<bar>x\<bar> < 2 powi (- 1022) \<Longrightarrow> expo x = - 1022"
  by (simp add: expo_def)

lemma expo_ge: "- 1022 \<le> expo x"
proof (cases "\<bar>x\<bar> < 2 powi (- 1022)")
  case True
  then show ?thesis by (simp add: expo_def)
next
  case False
  then have n: "2 powi (- 1022) \<le> \<bar>x\<bar>" by simp
  show ?thesis
  proof (rule ccontr)
    assume "\<not> - 1022 \<le> expo x"
    then have "expo x + 1 \<le> - 1022" by simp
    then have "(2::real) powi (expo x + 1) \<le> 2 powi (- 1022)"
      by (intro power_int_increasing) simp_all
    with expo_normal(2) [OF n] n show False by simp
  qed
qed

lemma expo_eqI:
  assumes "2 powi e \<le> \<bar>x\<bar>" "\<bar>x\<bar> < 2 powi (e + 1)" "- 1022 \<le> e"
  shows "expo x = e"
proof -
  have pos: "0 < \<bar>x\<bar>"
    using assms(1) by (smt (verit) zero_less_power_int)
  have "(2::real) powi (- 1022) \<le> 2 powi e"
    using assms(3) by (intro power_int_increasing) simp_all
  with assms(1) have "expo x = \<lfloor>log 2 \<bar>x\<bar>\<rfloor>"
    by (simp add: expo_def)
  with floor_log2_iff [OF pos, of e] assms show ?thesis
    by simp
qed

lemma expo_upper: "\<bar>x\<bar> < 2 powi (expo x + 1)"
proof (cases "2 powi (- 1022) \<le> \<bar>x\<bar>")
  case True
  then show ?thesis by (rule expo_normal)
next
  case False
  then have "\<bar>x\<bar> < 2 powi (- 1022)" by simp
  moreover from this have "expo x = - 1022" by (rule expo_subnormal)
  moreover have "(2::real) powi (- 1022) \<le> 2 powi (- 1022 + 1)"
    by (intro power_int_increasing) simp_all
  ultimately show ?thesis by simp
qed

lemma expo_abs: "expo \<bar>x\<bar> = expo x" "expo (- x) = expo x"
  by (simp_all add: expo_def)

subsection \<open>Rounding to the nearest integer\<close>

lemma round_even_err: "\<bar>of_int (round_even m) - m\<bar> \<le> 1 / 2"
  unfolding round_even_def Let_def by (auto simp: abs_le_iff)

lemma round_even_int: "round_even (of_int k) = k"
  by (simp add: round_even_def)

lemma round_even_mono:
  assumes "m \<le> m'"
  shows "round_even m \<le> round_even m'"
proof (cases "m = m'")
  case True
  then show ?thesis by simp
next
  case False
  with assms have lt: "m < m'" by simp
  have "of_int (round_even m) \<le> m + 1 / 2"
    using round_even_err [of m] by linarith
  moreover have "m' - 1 / 2 \<le> of_int (round_even m')"
    using round_even_err [of m'] by linarith
  ultimately have "(of_int (round_even m) :: real) < of_int (round_even m') + 1"
    using lt by linarith
  then show ?thesis
    by linarith
qed


subsection \<open>Error bounds\<close>

lemma quantum_pos: "0 < quantum x"
  by (simp add: quantum_def)

lemma quantum_nonneg: "0 \<le> quantum x"
  by (simp add: quantum_def)

lemma quantum_abs: "quantum \<bar>x\<bar> = quantum x" "quantum (- x) = quantum x"
  by (simp_all add: quantum_def expo_abs)

lemma rnd_0: "rnd 0 = 0"
  by (simp add: rnd_def)

lemma rnd_minus: "rnd (- x) = - rnd x"
  by (simp add: rnd_def quantum_abs sgn_minus)

lemma round_even_nonneg: "0 \<le> m \<Longrightarrow> 0 \<le> round_even m"
  using round_even_mono [of 0 m] round_even_int [of 0] by simp

lemma rnd_nonneg: "0 \<le> x \<Longrightarrow> 0 \<le> rnd x"
  by (simp add: rnd_def sgn_if quantum_pos round_even_nonneg less_imp_le)

lemma rnd_abs: "rnd \<bar>x\<bar> = \<bar>rnd x\<bar>"
  using rnd_nonneg [of x] rnd_nonneg [of "- x"] by (cases "0 \<le> x") (simp_all add: rnd_minus)

lemma rnd_abs_err: "\<bar>rnd x - x\<bar> \<le> quantum x / 2"
proof -
  define q where "q = quantum x"
  have q: "0 < q" by (simp add: q_def quantum_pos)
  have e: "\<bar>of_int (round_even (\<bar>x\<bar> / q)) - \<bar>x\<bar> / q\<bar> \<le> 1 / 2"
    by (rule round_even_err)
  have "of_int (round_even (\<bar>x\<bar> / q)) * q - \<bar>x\<bar> = (of_int (round_even (\<bar>x\<bar> / q)) - \<bar>x\<bar> / q) * q"
    using q by (simp add: field_simps)
  then have "\<bar>of_int (round_even (\<bar>x\<bar> / q)) * q - \<bar>x\<bar>\<bar> = \<bar>of_int (round_even (\<bar>x\<bar> / q)) - \<bar>x\<bar> / q\<bar> * q"
    using q by (simp add: abs_mult)
  also have "\<dots> \<le> 1 / 2 * q"
    using e q by (intro mult_right_mono) simp_all
  finally have pos: "\<bar>of_int (round_even (\<bar>x\<bar> / q)) * q - \<bar>x\<bar>\<bar> \<le> q / 2" by simp
  show ?thesis
  proof (cases "0 \<le> x")
    case True
    with pos show ?thesis
      by (cases "x = 0") (simp_all add: rnd_def q_def [symmetric] sgn_if quantum_nonneg)
  next
    case False
    with pos show ?thesis
      by (simp add: rnd_def q_def [symmetric] sgn_if abs_minus_commute add.commute)
  qed
qed

lemma quantum_normal:
  assumes "2 powi (- 1022) \<le> \<bar>x\<bar>"
  shows "quantum x \<le> 2 powi (- 52) * \<bar>x\<bar>"
proof -
  have "quantum x = 2 powi (- 52) * 2 powi (expo x)"
    by (simp add: quantum_def power_int_diff power_int_minus field_simps)
  also have "\<dots> \<le> 2 powi (- 52) * \<bar>x\<bar>"
    using expo_normal(1) [OF assms] by (intro mult_left_mono) simp_all
  finally show ?thesis .
qed

lemma quantum_subnormal: "\<bar>x\<bar> < 2 powi (- 1022) \<Longrightarrow> quantum x = 2 powi (- 1074)"
  by (simp add: quantum_def expo_subnormal)

lemma rnd_rel_err:
  assumes "2 powi (- 1022) \<le> \<bar>x\<bar>"
  shows "\<bar>rnd x - x\<bar> \<le> 2 powi (- 53) * \<bar>x\<bar>"
proof -
  have "\<bar>rnd x - x\<bar> \<le> quantum x / 2"
    by (rule rnd_abs_err)
  also have "\<dots> \<le> (2 powi (- 52) * \<bar>x\<bar>) / 2"
    using quantum_normal [OF assms] by simp
  also have "\<dots> = 2 powi (- 53) * \<bar>x\<bar>"
    by (simp add: power_int_minus)
  finally show ?thesis .
qed


subsection \<open>Doubles are fixed, and rounding is monotone\<close>

lemma power_int_less_cancel: "(2::real) powi a < 2 powi b \<Longrightarrow> a < b"
  by (rule ccontr) (use power_int_increasing [of b a "2::real"] in simp)

lemma rnd_rep:
  assumes n: "\<bar>n\<bar> < 2 ^ 53" and e: "- 1022 \<le> e"
  shows "rnd (of_int n * 2 powi (e - 52)) = of_int n * 2 powi (e - 52)"
proof -
  define x :: real where "x = of_int n * 2 powi (e - 52)"
  have absx: "\<bar>x\<bar> = of_int \<bar>n\<bar> * 2 powi (e - 52)"
    by (simp add: x_def abs_mult)
  have "(of_int \<bar>n\<bar> :: real) < 2 ^ 53"
    using n by (metis of_int_less_iff of_int_numeral of_int_power)
  then have "\<bar>x\<bar> < 2 ^ 53 * 2 powi (e - 52)"
    unfolding absx by (intro mult_strict_right_mono) simp_all
  also have "\<dots> = 2 powi (e + 1)"
    by (simp add: power_int_diff power_int_add)
  finally have up: "\<bar>x\<bar> < 2 powi (e + 1)" .
  have le: "expo x \<le> e"
  proof (cases "\<bar>x\<bar> < 2 powi (- 1022)")
    case True
    then show ?thesis using e by (simp add: expo_subnormal)
  next
    case False
    then have "2 powi (expo x) \<le> \<bar>x\<bar>" by (intro expo_normal) simp
    with up have "(2::real) powi (expo x) < 2 powi (e + 1)" by simp
    then have "expo x < e + 1" by (rule power_int_less_cancel)
    then show ?thesis by simp
  qed
  define d where "d = nat (e - expo x)"
  have d: "e - 52 = (expo x - 52) + int d"
    using le by (simp add: d_def)
  have "\<bar>x\<bar> / quantum x = of_int \<bar>n\<bar> * 2 ^ d"
    unfolding absx quantum_def d by (simp add: power_int_add)
  also have "\<dots> = of_int (\<bar>n\<bar> * 2 ^ d)"
    by simp
  finally have "round_even (\<bar>x\<bar> / quantum x) = \<bar>n\<bar> * 2 ^ d"
    by (simp only: round_even_int)
  then have "rnd x = sgn x * (of_int \<bar>n\<bar> * 2 ^ d * quantum x)"
    by (simp add: rnd_def)
  also have "of_int \<bar>n\<bar> * 2 ^ d * quantum x = \<bar>x\<bar>"
    unfolding absx quantum_def d by (simp add: power_int_add)
  also have "sgn x * \<bar>x\<bar> = x"
    by (simp add: sgn_if)
  finally show ?thesis
    by (simp add: x_def)
qed

lemma expo_mono:
  assumes "\<bar>x\<bar> \<le> \<bar>y\<bar>"
  shows "expo x \<le> expo y"
proof (cases "\<bar>x\<bar> < 2 powi (- 1022)")
  case True
  then show ?thesis by (simp add: expo_subnormal expo_ge)
next
  case False
  then have nx: "2 powi (- 1022) \<le> \<bar>x\<bar>" by simp
  with assms have ny: "2 powi (- 1022) \<le> \<bar>y\<bar>" by simp
  have "(2::real) powi (expo x) < 2 powi (expo y + 1)"
    using expo_normal(1) [OF nx] expo_normal(2) [OF ny] assms by simp
  then have "expo x < expo y + 1" by (rule power_int_less_cancel)
  then show ?thesis by simp
qed

lemma quantum_scale: "2 ^ 52 * quantum x = 2 powi (expo x)" "2 ^ 53 * quantum x = 2 powi (expo x + 1)"
  by (simp_all add: quantum_def power_int_diff power_int_add)

lemma rnd_nonneg_eq: "0 \<le> x \<Longrightarrow> rnd x = of_int (round_even (x / quantum x)) * quantum x"
  using round_even_int [of 0] by (cases "x = 0") (simp_all add: rnd_def sgn_if)

lemma rnd_le_pow:
  assumes "0 \<le> x"
  shows "rnd x \<le> 2 powi (expo x + 1)"
proof -
  have "x / quantum x \<le> 2 ^ 53"
    using expo_upper [of x] assms quantum_pos [of x] quantum_scale(2) [of x]
    by (simp add: pos_divide_le_eq)
  then have "round_even (x / quantum x) \<le> round_even (of_int (2 ^ 53))"
    by (intro round_even_mono) simp
  then have "round_even (x / quantum x) \<le> 2 ^ 53"
    by (simp only: round_even_int)
  then have "(of_int (round_even (x / quantum x)) :: real) \<le> 2 ^ 53"
    by (metis of_int_le_iff of_int_numeral of_int_power)
  then have "of_int (round_even (x / quantum x)) * quantum x \<le> 2 ^ 53 * quantum x"
    using quantum_pos [of x] by (intro mult_right_mono) simp_all
  then show ?thesis
    unfolding rnd_nonneg_eq [OF assms] quantum_scale .
qed

lemma rnd_ge_pow:
  assumes "2 powi (- 1022) \<le> x"
  shows "2 powi (expo x) \<le> rnd x"
proof -
  have pos: "0 < x"
    using assms by (smt (verit) zero_less_power_int)
  have "2 powi (expo x) \<le> x"
    using expo_normal(1) [of x] assms pos by simp
  then have "2 ^ 52 \<le> x / quantum x"
    using quantum_pos [of x] quantum_scale(1) [of x] by (simp add: pos_le_divide_eq)
  then have "round_even (of_int (2 ^ 52)) \<le> round_even (x / quantum x)"
    by (intro round_even_mono) simp
  then have "2 ^ 52 \<le> round_even (x / quantum x)"
    by (simp only: round_even_int)
  then have "(2 ^ 52 :: real) \<le> of_int (round_even (x / quantum x))"
    by (metis of_int_le_iff of_int_numeral of_int_power)
  then have "2 ^ 52 * quantum x \<le> of_int (round_even (x / quantum x)) * quantum x"
    using quantum_pos [of x] by (intro mult_right_mono) simp_all
  then show ?thesis
    unfolding rnd_nonneg_eq [OF less_imp_le [OF pos]] quantum_scale .
qed

lemma rnd_mono_nonneg:
  assumes "0 \<le> x" "x \<le> y"
  shows "rnd x \<le> rnd y"
proof -
  have le: "expo x \<le> expo y"
    using assms by (intro expo_mono) simp
  show ?thesis
  proof (cases "expo x = expo y")
    case True
    then have q: "quantum x = quantum y" by (simp add: quantum_def)
    have "x / quantum y \<le> y / quantum y"
      using assms quantum_pos [of y] by (simp add: divide_right_mono)
    then have "round_even (x / quantum y) \<le> round_even (y / quantum y)"
      by (rule round_even_mono)
    then have "(of_int (round_even (x / quantum y)) :: real) * quantum y
        \<le> of_int (round_even (y / quantum y)) * quantum y"
      using quantum_pos [of y] by (intro mult_right_mono) simp_all
    then show ?thesis
      using assms by (simp add: rnd_nonneg_eq q)
  next
    case False
    with le have lt: "expo x + 1 \<le> expo y" by simp
    have ny: "2 powi (- 1022) \<le> y"
    proof (rule ccontr)
      assume "\<not> 2 powi (- 1022) \<le> y"
      with assms have "\<bar>y\<bar> < 2 powi (- 1022)" by simp
      then have "expo y = - 1022" by (rule expo_subnormal)
      with lt expo_ge [of x] show False by simp
    qed
    have "rnd x \<le> 2 powi (expo x + 1)"
      using assms(1) by (rule rnd_le_pow)
    also have "\<dots> \<le> 2 powi (expo y)"
      using lt by (intro power_int_increasing) simp_all
    also have "\<dots> \<le> rnd y"
      using ny by (rule rnd_ge_pow)
    finally show ?thesis .
  qed
qed

lemma rnd_mono:
  assumes "x \<le> y"
  shows "rnd x \<le> rnd y"
proof (cases "0 \<le> x")
  case True
  then show ?thesis using assms by (rule rnd_mono_nonneg)
next
  case False
  show ?thesis
  proof (cases "0 \<le> y")
    case True
    have "rnd x \<le> 0"
      using rnd_nonneg [of "- x"] False by (simp add: rnd_minus)
    with rnd_nonneg [OF True] show ?thesis by simp
  next
    case ny: False
    have "rnd (- y) \<le> rnd (- x)"
      using assms ny by (intro rnd_mono_nonneg) simp_all
    then show ?thesis by (simp add: rnd_minus)
  qed
qed

lemma rnd_idem: "rnd (rnd x) = rnd x"
proof -
  have nonneg: "rnd (rnd x) = rnd x" if "0 \<le> x" for x
  proof -
    define n where "n = round_even (x / quantum x)"
    have r: "rnd x = of_int n * 2 powi (expo x - 52)"
      using that by (simp add: rnd_nonneg_eq n_def quantum_def)
    have n0: "0 \<le> n"
      unfolding n_def using that quantum_pos [of x] by (intro round_even_nonneg) simp
    have "x / quantum x \<le> 2 ^ 53"
      using expo_upper [of x] that quantum_pos [of x] quantum_scale(2) [of x]
      by (simp add: pos_divide_le_eq)
    then have "n \<le> round_even (of_int (2 ^ 53))"
      unfolding n_def by (intro round_even_mono) simp
    then have n53: "n \<le> 2 ^ 53"
      by (simp only: round_even_int)
    show ?thesis
    proof (cases "n = 2 ^ 53")
      case True
      have "rnd x = of_int (2 ^ 52) * 2 powi ((expo x + 1) - 52)"
        unfolding r True by (simp add: power_int_diff power_int_add)
      moreover have "rnd (of_int (2 ^ 52) * 2 powi ((expo x + 1) - 52))
          = of_int (2 ^ 52) * 2 powi ((expo x + 1) - 52)"
        using expo_ge [of x] by (intro rnd_rep) simp_all
      ultimately show ?thesis by simp
    next
      case False
      with n0 n53 have "\<bar>n\<bar> < 2 ^ 53" by simp
      then have "rnd (of_int n * 2 powi (expo x - 52)) = of_int n * 2 powi (expo x - 52)"
        using expo_ge [of x] by (intro rnd_rep) simp_all
      then show ?thesis by (simp add: r)
    qed
  qed
  show ?thesis
  proof (cases "0 \<le> x")
    case True
    then show ?thesis by (rule nonneg)
  next
    case False
    then have "rnd (rnd (- x)) = rnd (- x)" by (intro nonneg) simp
    then show ?thesis by (simp add: rnd_minus)
  qed
qed


subsection \<open>Evaluation\<close>

text \<open>
  The double nearest to a given number, once the binade of the number is known; the
  instances cover the numbers between \<open>2 powi (- 8)\<close> and \<open>2 ^ 13\<close>.
\<close>

lemma rnd_eval:
  assumes lo: "2 ^ 52 \<le> \<bar>x\<bar> * 2 ^ k" and hi: "\<bar>x\<bar> * 2 ^ k < 2 ^ 53" and k: "k \<le> 1074"
  shows "rnd x = sgn x * of_int (round_even (\<bar>x\<bar> * 2 ^ k)) / 2 ^ k"
proof -
  define e where "e = 52 - int k"
  have p: "(2::real) powi e = 2 ^ 52 / 2 ^ k" "(2::real) powi (e + 1) = 2 ^ 53 / 2 ^ k"
    by (simp_all add: e_def power_int_diff power_int_add)
  have "2 powi e \<le> \<bar>x\<bar>" "\<bar>x\<bar> < 2 powi (e + 1)"
    unfolding p using lo hi by (simp_all add: pos_divide_le_eq pos_less_divide_eq)
  moreover have "- 1022 \<le> e"
    using k by (simp add: e_def)
  ultimately have "expo x = e"
    by (rule expo_eqI)
  then have "quantum x = 2 powi (- int k)"
    by (simp add: quantum_def e_def)
  also have "\<dots> = 1 / 2 ^ k"
    by (simp add: power_int_minus field_simps)
  finally have "quantum x = 1 / 2 ^ k" .
  then show ?thesis
    by (simp add: rnd_def)
qed

lemma rnd_binade_40:
  "4096 \<le> \<bar>x\<bar> \<Longrightarrow> \<bar>x\<bar> < 8192 \<Longrightarrow>
   rnd x = sgn x * of_int (round_even (\<bar>x\<bar> * 1099511627776)) / 1099511627776"
  using rnd_eval [of x 40] by simp

lemma rnd_binade_41:
  "2048 \<le> \<bar>x\<bar> \<Longrightarrow> \<bar>x\<bar> < 4096 \<Longrightarrow>
   rnd x = sgn x * of_int (round_even (\<bar>x\<bar> * 2199023255552)) / 2199023255552"
  using rnd_eval [of x 41] by simp

lemma rnd_binade_42:
  "1024 \<le> \<bar>x\<bar> \<Longrightarrow> \<bar>x\<bar> < 2048 \<Longrightarrow>
   rnd x = sgn x * of_int (round_even (\<bar>x\<bar> * 4398046511104)) / 4398046511104"
  using rnd_eval [of x 42] by simp

lemma rnd_binade_43:
  "512 \<le> \<bar>x\<bar> \<Longrightarrow> \<bar>x\<bar> < 1024 \<Longrightarrow>
   rnd x = sgn x * of_int (round_even (\<bar>x\<bar> * 8796093022208)) / 8796093022208"
  using rnd_eval [of x 43] by simp

lemma rnd_binade_44:
  "256 \<le> \<bar>x\<bar> \<Longrightarrow> \<bar>x\<bar> < 512 \<Longrightarrow>
   rnd x = sgn x * of_int (round_even (\<bar>x\<bar> * 17592186044416)) / 17592186044416"
  using rnd_eval [of x 44] by simp

lemma rnd_binade_45:
  "128 \<le> \<bar>x\<bar> \<Longrightarrow> \<bar>x\<bar> < 256 \<Longrightarrow>
   rnd x = sgn x * of_int (round_even (\<bar>x\<bar> * 35184372088832)) / 35184372088832"
  using rnd_eval [of x 45] by simp

lemma rnd_binade_46:
  "64 \<le> \<bar>x\<bar> \<Longrightarrow> \<bar>x\<bar> < 128 \<Longrightarrow>
   rnd x = sgn x * of_int (round_even (\<bar>x\<bar> * 70368744177664)) / 70368744177664"
  using rnd_eval [of x 46] by simp

lemma rnd_binade_47:
  "32 \<le> \<bar>x\<bar> \<Longrightarrow> \<bar>x\<bar> < 64 \<Longrightarrow>
   rnd x = sgn x * of_int (round_even (\<bar>x\<bar> * 140737488355328)) / 140737488355328"
  using rnd_eval [of x 47] by simp

lemma rnd_binade_48:
  "16 \<le> \<bar>x\<bar> \<Longrightarrow> \<bar>x\<bar> < 32 \<Longrightarrow>
   rnd x = sgn x * of_int (round_even (\<bar>x\<bar> * 281474976710656)) / 281474976710656"
  using rnd_eval [of x 48] by simp

lemma rnd_binade_49:
  "8 \<le> \<bar>x\<bar> \<Longrightarrow> \<bar>x\<bar> < 16 \<Longrightarrow>
   rnd x = sgn x * of_int (round_even (\<bar>x\<bar> * 562949953421312)) / 562949953421312"
  using rnd_eval [of x 49] by simp

lemma rnd_binade_50:
  "4 \<le> \<bar>x\<bar> \<Longrightarrow> \<bar>x\<bar> < 8 \<Longrightarrow>
   rnd x = sgn x * of_int (round_even (\<bar>x\<bar> * 1125899906842624)) / 1125899906842624"
  using rnd_eval [of x 50] by simp

lemma rnd_binade_51:
  "2 \<le> \<bar>x\<bar> \<Longrightarrow> \<bar>x\<bar> < 4 \<Longrightarrow>
   rnd x = sgn x * of_int (round_even (\<bar>x\<bar> * 2251799813685248)) / 2251799813685248"
  using rnd_eval [of x 51] by simp

lemma rnd_binade_52:
  "1 \<le> \<bar>x\<bar> \<Longrightarrow> \<bar>x\<bar> < 2 \<Longrightarrow>
   rnd x = sgn x * of_int (round_even (\<bar>x\<bar> * 4503599627370496)) / 4503599627370496"
  using rnd_eval [of x 52] by simp

lemma rnd_binade_53:
  "1 / 2 \<le> \<bar>x\<bar> \<Longrightarrow> \<bar>x\<bar> < 1 \<Longrightarrow>
   rnd x = sgn x * of_int (round_even (\<bar>x\<bar> * 9007199254740992)) / 9007199254740992"
  using rnd_eval [of x 53] by simp

lemma rnd_binade_54:
  "1 / 4 \<le> \<bar>x\<bar> \<Longrightarrow> \<bar>x\<bar> < 1 / 2 \<Longrightarrow>
   rnd x = sgn x * of_int (round_even (\<bar>x\<bar> * 18014398509481984)) / 18014398509481984"
  using rnd_eval [of x 54] by simp

lemma rnd_binade_55:
  "1 / 8 \<le> \<bar>x\<bar> \<Longrightarrow> \<bar>x\<bar> < 1 / 4 \<Longrightarrow>
   rnd x = sgn x * of_int (round_even (\<bar>x\<bar> * 36028797018963968)) / 36028797018963968"
  using rnd_eval [of x 55] by simp

lemma rnd_binade_56:
  "1 / 16 \<le> \<bar>x\<bar> \<Longrightarrow> \<bar>x\<bar> < 1 / 8 \<Longrightarrow>
   rnd x = sgn x * of_int (round_even (\<bar>x\<bar> * 72057594037927936)) / 72057594037927936"
  using rnd_eval [of x 56] by simp

lemma rnd_binade_57:
  "1 / 32 \<le> \<bar>x\<bar> \<Longrightarrow> \<bar>x\<bar> < 1 / 16 \<Longrightarrow>
   rnd x = sgn x * of_int (round_even (\<bar>x\<bar> * 144115188075855872)) / 144115188075855872"
  using rnd_eval [of x 57] by simp

lemma rnd_binade_58:
  "1 / 64 \<le> \<bar>x\<bar> \<Longrightarrow> \<bar>x\<bar> < 1 / 32 \<Longrightarrow>
   rnd x = sgn x * of_int (round_even (\<bar>x\<bar> * 288230376151711744)) / 288230376151711744"
  using rnd_eval [of x 58] by simp

lemma rnd_binade_59:
  "1 / 128 \<le> \<bar>x\<bar> \<Longrightarrow> \<bar>x\<bar> < 1 / 64 \<Longrightarrow>
   rnd x = sgn x * of_int (round_even (\<bar>x\<bar> * 576460752303423488)) / 576460752303423488"
  using rnd_eval [of x 59] by simp

lemma rnd_binade_60:
  "1 / 256 \<le> \<bar>x\<bar> \<Longrightarrow> \<bar>x\<bar> < 1 / 128 \<Longrightarrow>
   rnd x = sgn x * of_int (round_even (\<bar>x\<bar> * 1152921504606846976)) / 1152921504606846976"
  using rnd_eval [of x 60] by simp

lemmas rnd_binades =
  rnd_binade_40 rnd_binade_41 rnd_binade_42 rnd_binade_43
  rnd_binade_44 rnd_binade_45 rnd_binade_46 rnd_binade_47
  rnd_binade_48 rnd_binade_49 rnd_binade_50 rnd_binade_51
  rnd_binade_52 rnd_binade_53 rnd_binade_54 rnd_binade_55
  rnd_binade_56 rnd_binade_57 rnd_binade_58 rnd_binade_59
  rnd_binade_60

lemma huge_gt: "\<bar>y\<bar> \<le> 2 ^ 64 \<Longrightarrow> \<not> huge \<le> \<bar>y\<bar>"
proof -
  have "(2::real) ^ 64 < 2 ^ 1024"
    by (rule power_strict_increasing) simp_all
  then show "\<bar>y\<bar> \<le> 2 ^ 64 \<Longrightarrow> \<not> huge \<le> \<bar>y\<bar>"
    by (simp add: huge_def)
qed

lemma rd_small: "\<bar>rnd x\<bar> \<le> 2 ^ 64 \<Longrightarrow> rd x = Fin (rnd x)"
  by (simp add: rd_def huge_gt)

lemma rd_0: "rd 0 = Fin 0"
  by (simp add: rd_small rnd_0)

lemmas dbl_eval = rd_0 rd_small rnd_0 rnd_binades round_even_def

lemmas js_ops =
  js_add_def js_sub_def js_mul_def js_div_def js_abs_def js_sqrt_def js_lt_def js_le_def
  js_gt_def js_ge_def js_min_def js_max_def js_truthy_def js_or_def js_pow2_def toFixed2_def

subsection \<open>Finite results\<close>

lemma rd_Fin: "rd x = Fin y \<Longrightarrow> y = rnd x \<and> \<bar>y\<bar> < huge"
  by (auto simp: rd_def split: if_splits)

lemma rd_Fin_iff: "rd x = Fin y \<longleftrightarrow> y = rnd x \<and> \<bar>rnd x\<bar> < huge"
  by (auto simp: rd_def split: if_splits)

lemma rd_rnd: "\<bar>rnd x\<bar> < huge \<Longrightarrow> rd (rnd x) = Fin (rnd x)"
  by (simp add: rd_def rnd_idem)

lemma canon_rd: "canon (rd x) = rd x"
  by (auto simp: rd_def rnd_idem)

lemma canon_idem: "canon (canon x) = canon x"
  by (cases x) (simp_all add: canon_rd)

lemma lt_d_NaN: "lt_d x NaN = False" "lt_d NaN x = False"
  by (cases x; simp)+

lemma le_d_NaN: "le_d x NaN = False" "le_d NaN x = False"
  by (cases x; simp)+


subsection \<open>Operations with a finite result\<close>

lemma rd_not_NaN: "rd x \<noteq> NaN"
  by (simp add: rd_def)

lemma rd_Fin_canon: "rd x = Fin y \<Longrightarrow> rd y = Fin y"
  using canon_rd [of x] by simp

lemma canon_js_neg: "canon (js_neg x) = js_neg (canon x)"
proof (cases x)
  case (Fin a)
  have "\<not> huge \<le> 0" by (simp add: huge_def)
  then show ?thesis
    using Fin by (cases "a = 0") (auto simp: rd_def rnd_minus rnd_0)
qed simp_all

lemma canon_add_d: "canon (add_d a b) = add_d a b"
  by (cases a; cases b) (simp_all add: canon_rd)

lemma canon_js_add: "canon (js_add a b) = js_add a b"
  by (simp add: js_add_def canon_add_d)

lemma canon_js_sub: "canon (js_sub a b) = js_sub a b"
  by (simp add: js_sub_def canon_js_add)

lemma add_d_Fin: "add_d a b = Fin r \<Longrightarrow> \<exists>x y. a = Fin x \<and> b = Fin y \<and> rd (x + y) = Fin r"
  by (cases a; cases b) simp_all

lemma js_sub_Fin:
  assumes "js_sub a b = Fin r"
  shows "\<exists>x y. canon a = Fin x \<and> canon b = Fin y \<and> rd (x - y) = Fin r"
proof -
  from assms have "add_d (canon a) (js_neg (canon b)) = Fin r"
    by (simp add: js_sub_def js_add_def canon_js_neg)
  from add_d_Fin [OF this] obtain x y
    where x: "canon a = Fin x" and y: "js_neg (canon b) = Fin y" and r: "rd (x + y) = Fin r"
    by blast
  from y have "canon b = Fin (- y)"
    by (cases "canon b") simp_all
  with x r show ?thesis
    by simp
qed

lemma rd_between:
  assumes a: "rd a = Fin a" and b: "rd b = Fin b" and ax: "a \<le> x" and xb: "x \<le> b"
  shows "rd x = Fin (rnd x)" and "a \<le> rnd x" and "rnd x \<le> b"
proof -
  from rd_Fin [OF a] have ra: "rnd a = a" "\<bar>a\<bar> < huge"
    by (blast intro: sym)+
  from rd_Fin [OF b] have rb: "rnd b = b" "\<bar>b\<bar> < huge"
    by (blast intro: sym)+
  from rnd_mono [OF ax] ra show lo: "a \<le> rnd x" by simp
  from rnd_mono [OF xb] rb show hi: "rnd x \<le> b" by simp
  from lo hi ra rb have "\<bar>rnd x\<bar> < huge" by linarith
  then show "rd x = Fin (rnd x)" by (simp add: rd_def)
qed

lemma rd_neg_Fin:
  assumes "rd x = Fin x"
  shows "rd (- x) = Fin (- x)"
proof -
  from rd_Fin [OF assms] have "rnd x = x" "\<bar>x\<bar> < huge"
    by (blast intro: sym)+
  then show ?thesis
    by (simp add: rd_def rnd_minus)
qed

lemma rd_abs_Fin:
  assumes "rd x = Fin x"
  shows "rd \<bar>x\<bar> = Fin \<bar>x\<bar>"
proof -
  from rd_Fin [OF assms] have "rnd x = x" "\<bar>x\<bar> < huge"
    by (blast intro: sym)+
  then show ?thesis
    by (simp add: rd_def rnd_abs)
qed

subsection \<open>Differences of doubles\<close>

lemma rnd_grid: "\<exists>n::int. rnd x = of_int n * 2 powi (- 1074)"
proof -
  define k where "k = nat (expo x + 1022)"
  define m where "m = round_even (\<bar>x\<bar> / quantum x)"
  have "expo x - 52 = int k + (- 1074)"
    using expo_ge [of x] by (simp add: k_def)
  then have "quantum x = 2 powi (int k + (- 1074))"
    unfolding quantum_def by (rule arg_cong)
  also have "\<dots> = 2 ^ k * 2 powi (- 1074)"
    by (subst power_int_add) simp_all
  finally have q: "quantum x = 2 ^ k * 2 powi (- 1074)" .
  have r: "rnd x = sgn x * of_int m * (2 ^ k * 2 powi (- 1074))"
    by (simp add: rnd_def m_def q)
  consider "x < 0" | "x = 0" | "0 < x" by linarith
  then show ?thesis
  proof cases
    case 1
    then have "rnd x = of_int (- m * 2 ^ k) * 2 powi (- 1074)"
      by (simp add: r)
    then show ?thesis by blast
  next
    case 2
    then have "rnd x = of_int 0 * 2 powi (- 1074)"
      by (simp add: rnd_0)
    then show ?thesis by blast
  next
    case 3
    then have "rnd x = of_int (m * 2 ^ k) * 2 powi (- 1074)"
      by (simp add: r)
    then show ?thesis by blast
  qed
qed

lemma sub_exact_small:
  assumes x: "rnd x = x" and y: "rnd y = y" and small: "\<bar>x - y\<bar> < 2 powi (- 1022)"
  shows "rnd (x - y) = x - y"
proof -
  obtain n :: int where n: "rnd x = of_int n * 2 powi (- 1074)"
    using rnd_grid by blast
  obtain m :: int where m: "rnd y = of_int m * 2 powi (- 1074)"
    using rnd_grid by blast
  have eq: "x - y = of_int (n - m) * 2 powi (- 1022 - 52)"
    using n m x y by (simp add: algebra_simps)
  have split: "(2::real) powi (- 1022) = 2 ^ 52 * 2 powi (- 1074)"
  proof -
    have "(2::real) powi (- 1022) = 2 powi (52 + (- 1074))" by simp
    also have "\<dots> = 2 powi 52 * 2 powi (- 1074)"
      by (subst power_int_add) simp_all
    finally show ?thesis by simp
  qed
  have pos: "(0::real) < 2 powi (- 1074)" by simp
  from small have "\<bar>real_of_int (n - m)\<bar> * 2 powi (- 1074) < 2 ^ 52 * 2 powi (- 1074)"
    unfolding eq split [symmetric] by (simp add: abs_mult)
  with pos have "\<bar>real_of_int (n - m)\<bar> < 2 ^ 52"
    by (simp only: mult_less_cancel_right_pos)
  then have "real_of_int \<bar>n - m\<bar> < real_of_int (2 ^ 52)"
    by simp
  then have "\<bar>n - m\<bar> < 2 ^ 52"
    by (simp only: of_int_less_iff)
  then have "\<bar>n - m\<bar> < 2 ^ 53"
    by simp
  from rnd_rep [OF this, of "- 1022"] show ?thesis
    by (simp add: eq)
qed

lemma rnd_pow_min: "rnd (2 powi (- 1022)) = 2 powi (- 1022)"
proof -
  have "\<bar>2 ^ 52 :: int\<bar> < 2 ^ 53" by simp
  from rnd_rep [OF this, of "- 1022"] have
    "rnd (of_int (2 ^ 52) * 2 powi (- 1022 - 52)) = of_int (2 ^ 52) * 2 powi (- 1022 - 52)"
    by simp
  moreover have "of_int (2 ^ 52) * 2 powi (- 1022 - 52) = (2::real) powi (- 1022)"
  proof -
    have "(2::real) powi (- 1022) = 2 powi (52 + (- 1074))" by simp
    also have "\<dots> = 2 powi 52 * 2 powi (- 1074)"
      by (subst power_int_add) simp_all
    finally show ?thesis by simp
  qed
  ultimately show ?thesis by simp
qed

lemma half_width_le:
  assumes L: "rnd L = L" and H: "rnd H = H" and pos: "0 < rnd (H - L)"
  shows "rnd (rnd (H - L) / 2) \<le> H - L"
proof -
  define t where "t = H - L"
  define u :: real where "u = 2 powi (- 53)"
  have u: "0 \<le> u" "u \<le> 1 / 4"
  proof -
    show "0 \<le> u" by (simp add: u_def)
    have "(2::real) powi (- 53) \<le> 2 powi (- 2)"
      by (intro power_int_increasing) simp_all
    then show "u \<le> 1 / 4" by (simp add: u_def power_int_minus)
  qed
  have tpos: "0 < t"
  proof (rule ccontr)
    assume "\<not> 0 < t"
    then have "t \<le> 0" by simp
    from rnd_mono [OF this] pos show False by (simp add: rnd_0 t_def)
  qed
  have goal: "rnd (rnd t / 2) \<le> t"
  proof (cases "t < 2 powi (- 1022)")
    case True
    with tpos have "\<bar>H - L\<bar> < 2 powi (- 1022)" by (simp add: t_def)
    from sub_exact_small [OF H L this] have rt: "rnd t = t" by (simp add: t_def)
    have "rnd (t / 2) \<le> rnd t"
      by (rule rnd_mono) (use tpos in simp)
    with rt show ?thesis by simp
  next
    case False
    then have big: "2 powi (- 1022) \<le> \<bar>t\<bar>" by simp
    from tpos have "\<bar>t\<bar> = t" by simp
    with rnd_rel_err [OF big] have "\<bar>rnd t - t\<bar> \<le> u * t"
      by (simp only: u_def)
    then have rt: "rnd t \<le> t + u * t"
      by linarith
    have rt0: "0 \<le> rnd t" using tpos by (intro rnd_nonneg) simp
    show ?thesis
    proof (cases "rnd t / 2 < 2 powi (- 1022)")
      case True
      then have "rnd (rnd t / 2) \<le> rnd (2 powi (- 1022))"
        by (intro rnd_mono) simp
      with rnd_pow_min False show ?thesis by simp
    next
      case False
      with rt0 have "2 powi (- 1022) \<le> \<bar>rnd t / 2\<bar>" by simp
      moreover from rt0 have "\<bar>rnd t / 2\<bar> = rnd t / 2" by simp
      ultimately have "\<bar>rnd (rnd t / 2) - rnd t / 2\<bar> \<le> u * (rnd t / 2)"
        using rnd_rel_err [of "rnd t / 2"] by (simp only: u_def)
      then have "rnd (rnd t / 2) \<le> rnd t / 2 + u * (rnd t / 2)"
        by linarith
      also have "\<dots> = (rnd t / 2) * (1 + u)" by (simp add: algebra_simps)
      also have "\<dots> \<le> (rnd t / 2) * (5 / 4)"
        using rt0 u by (intro mult_left_mono) simp_all
      also have "\<dots> \<le> ((t + u * t) / 2) * (5 / 4)"
        using rt by simp
      also have "\<dots> = (t * (1 + u)) * (5 / 8)" by (simp add: algebra_simps)
      also have "\<dots> \<le> (t * (5 / 4)) * (5 / 8)"
        using tpos u by (intro mult_right_mono mult_left_mono) simp_all
      also have "\<dots> \<le> t" using tpos by simp
      finally show ?thesis .
    qed
  qed
  then show ?thesis by (simp add: t_def)
qed

subsection \<open>Relative error of the operations on moderate positive numbers\<close>






subsection \<open>Sums and quotients with relative errors\<close>










section \<open>Properties of the statistical detectors\<close>

subsection \<open>The loops over the series\<close>

lemma fold_enumerate_scores:
  assumes step: "\<And>i v idx sc. snd (step (i, v) (idx, sc)) = sc(i \<mapsto> g v)"
  shows "snd (fold step (enumerate n xs) st) k =
     (if n \<le> k \<and> k < n + length xs then Some (g (xs ! (k - n))) else snd st k)"
proof (induction xs arbitrary: n st)
  case Nil
  then show ?case by auto
next
  case (Cons x xs)
  obtain idx sc where st: "st = (idx, sc)" by (cases st)
  have here: "snd (step (n, x) st) = (snd st)(n \<mapsto> g x)"
    unfolding st by (simp add: step)
  show ?case
    by (auto simp: Cons.IH here nth_Cons' Suc_diff_Suc)
qed

lemma fold_enumerate_indices:
  assumes step: "\<And>i v idx sc. fst (step (i, v) (idx, sc)) = (if p v then idx @ [i] else idx)"
  shows "fst (fold step (enumerate n xs) st) =
     fst st @ map fst (filter (\<lambda>(i, v). p v) (enumerate n xs))"
proof (induction xs arbitrary: n st)
  case Nil
  then show ?case by simp
next
  case (Cons x xs)
  obtain idx sc where st: "st = (idx, sc)" by (cases st)
  have here: "fst (step (n, x) st) = (if p x then fst st @ [n] else fst st)"
    unfolding st by (simp add: step)
  show ?case
    by (simp add: Cons.IH here)
qed

lemma iqrStep_score:
  "snd (iqrStep lowerBound upperBound (i, v) (idx, sc)) = sc(i \<mapsto> iqrScore lowerBound upperBound v)"
  by (simp add: iqrStep_def iqrScore_def Let_def)

lemma zScore_scores:
  "anomalyScores (detectAnomaliesWithZScore cfg values) k =
     (if k < length values
      then Some (js_min (js_div (zScoresOf values ! k)
                                (js_mul (Fin (zScoreThreshold cfg)) (Fin 2))) (Fin 1))
      else None)"
proof -
  have len: "length (zScoresOf values) = length values"
    by (simp add: zScoresOf_def Let_def)
  have "snd (fold (zScoreStep cfg) (enumerate 0 (zScoresOf values)) ([], Map.empty)) k =
     (if 0 \<le> k \<and> k < 0 + length (zScoresOf values)
      then Some (js_min (js_div (zScoresOf values ! (k - 0))
                                (js_mul (Fin (zScoreThreshold cfg)) (Fin 2))) (Fin 1))
      else snd ([]::nat list, Map.empty::nat \<rightharpoonup> jsnum) k)"
    by (rule fold_enumerate_scores
          [where g = "\<lambda>z. js_min (js_div z (js_mul (Fin (zScoreThreshold cfg)) (Fin 2)))
                               (Fin 1)"])
       (simp add: zScoreStep_def Let_def)
  then show ?thesis
    by (simp add: detectAnomaliesWithZScore_def Let_def len case_prod_beta)
qed

lemma zScore_indices:
  "anomalyIndices (detectAnomaliesWithZScore cfg values) =
     map fst (filter (\<lambda>(i, z). js_gt z (Fin (zScoreThreshold cfg)))
                (enumerate 0 (zScoresOf values)))"
proof -
  have "fst (fold (zScoreStep cfg) (enumerate 0 (zScoresOf values)) ([], Map.empty)) =
     fst ([]::nat list, Map.empty::nat \<rightharpoonup> jsnum) @
     map fst (filter (\<lambda>(i, z). js_gt z (Fin (zScoreThreshold cfg)))
                (enumerate 0 (zScoresOf values)))"
    by (rule fold_enumerate_indices [where p = "\<lambda>z. js_gt z (Fin (zScoreThreshold cfg))"])
       (simp add: zScoreStep_def Let_def)
  then show ?thesis
    by (simp add: detectAnomaliesWithZScore_def Let_def case_prod_beta)
qed

lemma iqr_scores:
  "anomalyScores (detectAnomaliesWithIQR cfg values) k =
     (if k < length values
      then Some (iqrScore (fst (iqrBounds cfg values)) (snd (iqrBounds cfg values)) (values ! k))
      else None)"
proof -
  obtain lo hi where b: "iqrBounds cfg values = (lo, hi)"
    by (cases "iqrBounds cfg values")
  have "snd (fold (iqrStep lo hi) (enumerate 0 values) ([], Map.empty)) k =
     (if 0 \<le> k \<and> k < 0 + length values
      then Some (iqrScore lo hi (values ! (k - 0)))
      else snd ([]::nat list, Map.empty::nat \<rightharpoonup> jsnum) k)"
    by (rule fold_enumerate_scores [where g = "iqrScore lo hi"]) (rule iqrStep_score)
  then show ?thesis
    by (simp add: detectAnomaliesWithIQR_def Let_def b case_prod_beta)
qed

lemma iqr_indices:
  "anomalyIndices (detectAnomaliesWithIQR cfg values) =
     map fst (filter (\<lambda>(i, v). \<not> insideBounds (fst (iqrBounds cfg values))
                                            (snd (iqrBounds cfg values)) v)
                (enumerate 0 values))"
proof -
  obtain lo hi where b: "iqrBounds cfg values = (lo, hi)"
    by (cases "iqrBounds cfg values")
  have "fst (fold (iqrStep lo hi) (enumerate 0 values) ([], Map.empty)) =
     fst ([]::nat list, Map.empty::nat \<rightharpoonup> jsnum) @
     map fst (filter (\<lambda>(i, v). \<not> insideBounds lo hi v) (enumerate 0 values))"
    by (rule fold_enumerate_indices [where p = "\<lambda>v. \<not> insideBounds lo hi v"])
       (simp add: iqrStep_def insideBounds_def Let_def)
  then show ?thesis
    by (simp add: detectAnomaliesWithIQR_def Let_def b case_prod_beta)
qed

text \<open>
  C1. The claim is that on a constant series the Z-score detector returns no anomaly and
  gives every index the score 0, without \<open>NaN\<close>. On the series of five dividends of 1,
  with the default configuration, the detector returns no anomaly, and the score of each
  of the five indices is \<open>NaN\<close>.
\<close>

theorem zScore_constant_series_gives_nan:
  "anomalyIndices (detectAnomaliesWithZScore defaultDetectorConfig [1, 1, 1, 1, 1]) = []
   \<and> anomalyScores (detectAnomaliesWithZScore defaultDetectorConfig [1, 1, 1, 1, 1]) 0 = Some NaN
   \<and> anomalyScores (detectAnomaliesWithZScore defaultDetectorConfig [1, 1, 1, 1, 1]) 1 = Some NaN
   \<and> anomalyScores (detectAnomaliesWithZScore defaultDetectorConfig [1, 1, 1, 1, 1]) 2 = Some NaN
   \<and> anomalyScores (detectAnomaliesWithZScore defaultDetectorConfig [1, 1, 1, 1, 1]) 3 = Some NaN
   \<and> anomalyScores (detectAnomaliesWithZScore defaultDetectorConfig [1, 1, 1, 1, 1]) 4 = Some NaN"
  by (simp add: detectAnomaliesWithZScore_def zScoresOf_def calculateMean_def
      calculateStdDev_def zScoreStep_def js_ops dbl_eval lt_d_NaN Let_def)

subsection \<open>The range of the scores\<close>

text \<open>
  C2. The claim is that every score of every detection method lies in [0,1]. On the
  series of five dividends of 1, with the default configuration, the score of index 0 is
  \<open>NaN\<close> for the Z-score detector and for the IQR detector, and \<open>NaN\<close> is not in [0,1].
\<close>

theorem scores_outside_unit_interval:
  "anomalyScores (detectAnomaliesWithZScore defaultDetectorConfig [1, 1, 1, 1, 1]) 0 = Some NaN
   \<and> anomalyScores (detectAnomaliesWithIQR defaultDetectorConfig [1, 1, 1, 1, 1]) 0 = Some NaN
   \<and> \<not> in_unit_interval NaN"
  by (simp add: detectAnomaliesWithZScore_def zScoresOf_def calculateMean_def
      calculateStdDev_def zScoreStep_def js_ops dbl_eval lt_d_NaN Let_def
      detectAnomaliesWithIQR_def iqrBounds_def js_index_def iqrStep_def
      defaultDetectorConfig_def)

text \<open>
  Outside the bounds the distance is divided by the bound itself, not by its size: below
  a negative lower bound the score is negative.
\<close>

lemma iqr_negative_score:
  "iqrBounds defaultDetectorConfig [- 10, - 2, - 1, - 1, - 1, - 1, 0, 0] = (Fin (- 2.5), Fin 1.5)
   \<and> anomalyScores (detectAnomaliesWithIQR defaultDetectorConfig
         [- 10, - 2, - 1, - 1, - 1, - 1, 0, 0]) 0 = Some (Fin (- 3))"
proof -
  have b: "iqrBounds defaultDetectorConfig [- 10, - 2, - 1, - 1, - 1, - 1, 0, 0]
      = (Fin (- 2.5), Fin 1.5)"
    by (simp add: iqrBounds_def js_index_def Let_def defaultDetectorConfig_def js_ops dbl_eval)
  show ?thesis
    by (simp add: iqr_scores b iqrScore_def js_ops dbl_eval)
qed

subsection \<open>The IQR detector inside the bounds\<close>

lemma iqrBounds_one_to_five:
  "iqrBounds defaultDetectorConfig [1, 2, 3, 4, 5] = (Fin (- 1), Fin 7)"
  by (simp add: iqrBounds_def js_index_def Let_def defaultDetectorConfig_def js_ops dbl_eval)

text \<open>
  C8, as stated: a value inside the bounds gets a score that is at most 0.5, proportional
  to its distance from the centre of the bounds, and strictly greater than zero. In the
  series 1, 2, 3, 4, 5 the bounds are -1 and 7, the value 3 at index 2 is inside them, at
  their centre, and its score is 0, which is not greater than 0.
\<close>

theorem iqr_score_zero_at_centre:
  "insideBounds (fst (iqrBounds defaultDetectorConfig [1, 2, 3, 4, 5]))
                (snd (iqrBounds defaultDetectorConfig [1, 2, 3, 4, 5])) ([1, 2, 3, 4, 5] ! 2)
   \<and> anomalyScores (detectAnomaliesWithIQR defaultDetectorConfig [1, 2, 3, 4, 5]) 2
       = Some (Fin 0)
   \<and> \<not> js_gt (Fin 0) (Fin 0)"
  by (simp add: iqr_scores iqrBounds_one_to_five iqrScore_def insideBounds_def js_ops
      dbl_eval)

text \<open>
  The computed centre of the bounds lies between them, so the computed distance of an
  inside value from the centre is at most the computed width, and the score at most 0.5.
\<close>

lemma inside_core:
  assumes L: "rd L = Fin L" and H: "rd H = Fin H" and V: "rd V = Fin V"
    and r: "rd (H - L) = Fin r" and rpos: "0 < r" and LV: "L \<le> V" and VH: "V \<le> H"
  shows "\<exists>d s. js_abs (js_sub (Fin V) (js_add (Fin L) (js_div (Fin r) (Fin 2)))) = Fin d
     \<and> js_mul (js_div (Fin d) (Fin r)) (Fin 0.5) = Fin s
     \<and> 0 \<le> d \<and> d \<le> r \<and> 0 \<le> s \<and> s \<le> 1 / 2 \<and> (d = 0 \<longrightarrow> s = 0)"
proof -
  from rd_Fin [OF L] have Lr: "rnd L = L" by (blast intro: sym)
  from rd_Fin [OF H] have Hr: "rnd H = H" by (blast intro: sym)
  from rd_Fin [OF r] have r_eq: "r = rnd (H - L)" by blast
  have rr: "rd r = Fin r" using r by (rule rd_Fin_canon)
  have zero: "rd 0 = Fin 0" and one: "rd 1 = Fin 1" and two: "rd 2 = Fin 2"
    and half: "rd (1 / 2) = Fin (1 / 2)"
    by (simp_all add: dbl_eval)
  define h where "h = rnd (r / 2)"
  have hr: "rd (r / 2) = Fin h" and h0: "0 \<le> h"
    using rd_between [OF zero rr, of "r / 2"] rpos by (simp_all add: h_def)
  have hh: "rd h = Fin h" using hr by (rule rd_Fin_canon)
  have hle: "h \<le> H - L"
    using half_width_le [OF Lr Hr] rpos by (simp add: h_def r_eq)
  define c where "c = rnd (L + h)"
  have c: "rd (L + h) = Fin c" "L \<le> c" "c \<le> H"
    using rd_between [OF L H, of "L + h"] h0 hle by (simp_all add: c_def)
  have cc: "rd c = Fin c" using c(1) by (rule rd_Fin_canon)
  define e where "e = rnd (V - c)"
  have nr: "rd (- r) = Fin (- r)" using rr by (rule rd_neg_Fin)
  have below: "- (H - L) \<le> V - c" and above: "V - c \<le> H - L"
    using LV VH c by simp_all
  have "rnd (- (H - L)) \<le> e"
    unfolding e_def using below by (rule rnd_mono)
  then have e_lo: "- r \<le> e"
    unfolding r_eq rnd_minus .
  have e_hi: "e \<le> r"
    unfolding e_def r_eq using above by (rule rnd_mono)
  note e_bounds = e_lo e_hi
  from rd_Fin [OF rr] have "\<bar>r\<bar> < huge"
    by blast
  with e_bounds have "\<bar>rnd (V - c)\<bar> < huge"
    unfolding e_def by linarith
  then have e: "rd (V - c) = Fin e"
    by (simp add: rd_def e_def)
  have ee: "rd e = Fin e" using e by (rule rd_Fin_canon)
  define d where "d = \<bar>e\<bar>"
  have d: "0 \<le> d" "d \<le> r" using e_bounds by (simp_all add: d_def)
  have dd: "rd d = Fin d" unfolding d_def using ee by (rule rd_abs_Fin)
  define q where "q = rnd (d / r)"
  have q: "rd (d / r) = Fin q" "0 \<le> q" "q \<le> 1"
    using rd_between [OF zero one, of "d / r"] d rpos by (simp_all add: q_def)
  have qq: "rd q = Fin q" using q(1) by (rule rd_Fin_canon)
  define s where "s = rnd (q * (1 / 2))"
  have s: "rd (q * (1 / 2)) = Fin s" "0 \<le> s" "s \<le> 1 / 2"
    using rd_between [OF zero half, of "q * (1 / 2)"] q by (simp_all add: s_def)
  have s0: "d = 0 \<longrightarrow> s = 0"
    by (simp add: s_def q_def rnd_0)
  have 1: "js_div (Fin r) (Fin 2) = Fin h"
    using rpos by (simp add: js_div_def rr two hr)
  have 2: "js_add (Fin L) (Fin h) = Fin c"
    by (simp add: js_add_def L hh c)
  have 3: "js_sub (Fin V) (Fin c) = Fin e"
    using e by (simp add: js_sub_def js_add_def V rd_neg_Fin [OF cc])
  have 4: "js_abs (Fin e) = Fin d"
    by (simp add: js_abs_def ee d_def)
  have 5: "js_div (Fin d) (Fin r) = Fin q"
    using rpos by (simp add: js_div_def dd rr q)
  have 6: "js_mul (Fin q) (Fin 0.5) = Fin s"
    using s(1) by (simp add: js_mul_def qq half)
  from 1 2 3 4 5 6 d s s0 show ?thesis
    by simp
qed

lemma iqrBounds_canon:
  assumes "iqrBounds cfg values = (lo, hi)"
  shows "canon lo = lo" and "canon hi = hi"
  using assms by (auto simp: iqrBounds_def Let_def canon_js_add canon_js_sub)

text \<open>
  C8, amended. When the computed width of the bounds, \<open>upperBound - lowerBound\<close>, is a
  positive finite number, a value inside the bounds gets the score
  \<open>(distance / width) * 0.5\<close>, where \<open>distance\<close> is the computed distance of the value from
  the centre \<open>lowerBound + width / 2\<close> of the bounds: the distance is at least 0 and at
  most the width, the score is at least 0 and at most 0.5, and it is 0 when the distance
  is 0. All of these are the doubles that the code computes.
\<close>

theorem iqr_score_inside_bounds:
  assumes i: "i < length values"
    and b: "iqrBounds cfg values = (lo, hi)"
    and width: "js_sub hi lo = Fin r" and rpos: "0 < r"
    and inside: "insideBounds lo hi (values ! i)"
  shows "\<exists>d s.
       js_abs (js_sub (Fin (values ! i)) (js_add lo (js_div (Fin r) (Fin 2)))) = Fin d
     \<and> anomalyScores (detectAnomaliesWithIQR cfg values) i = Some (Fin s)
     \<and> js_mul (js_div (Fin d) (Fin r)) (Fin 0.5) = Fin s
     \<and> 0 \<le> d \<and> d \<le> r \<and> 0 \<le> s \<and> s \<le> 1 / 2 \<and> (d = 0 \<longrightarrow> s = 0)"
proof -
  define v where "v = values ! i"
  from js_sub_Fin [OF width] obtain H L
    where H': "canon hi = Fin H" and L': "canon lo = Fin L" and r: "rd (H - L) = Fin r"
    by blast
  from iqrBounds_canon [OF b] H' L' have hi: "hi = Fin H" and lo: "lo = Fin L"
    by simp_all
  from H' L' hi lo have H: "rd H = Fin H" and L: "rd L = Fin L"
    by simp_all
  from inside have nlt: "\<not> lt_d (rd v) (Fin L)" and ngt: "\<not> lt_d (Fin H) (rd v)"
    by (simp_all add: insideBounds_def js_lt_def js_gt_def v_def hi lo H L)
  obtain V where V': "rd v = Fin V"
    using nlt ngt rd_not_NaN [of v] by (cases "rd v") simp_all
  have V: "rd V = Fin V" using V' by (rule rd_Fin_canon)
  from nlt ngt V' have LV: "L \<le> V" and VH: "V \<le> H"
    by simp_all
  from inside_core [OF L H V r rpos LV VH] obtain d s
    where dist: "js_abs (js_sub (Fin V) (js_add (Fin L) (js_div (Fin r) (Fin 2)))) = Fin d"
      and score: "js_mul (js_div (Fin d) (Fin r)) (Fin 0.5) = Fin s"
      and rest: "0 \<le> d" "d \<le> r" "0 \<le> s" "s \<le> 1 / 2" "d = 0 \<longrightarrow> s = 0"
    by blast
  have same: "js_sub (Fin v) x = js_sub (Fin V) x" for x
    by (simp add: js_sub_def js_add_def V' V)
  have dist': "js_abs (js_sub (Fin v) (js_add lo (js_div (Fin r) (Fin 2)))) = Fin d"
    using dist by (simp add: same lo)
  have "iqrScore lo hi v = js_mul (js_div (Fin d) (Fin r)) (Fin 0.5)"
    using inside dist' by (simp add: iqrScore_def insideBounds_def v_def width)
  with i score have "anomalyScores (detectAnomaliesWithIQR cfg values) i = Some (Fin s)"
    by (simp add: iqr_scores b v_def)
  with dist' score rest show ?thesis
    unfolding v_def by blast
qed

theorem iqr_score_inside_bounds_witness:
  "(1::nat) < length [1, 2, 3, 4, 5 :: real]
   \<and> iqrBounds defaultDetectorConfig [1, 2, 3, 4, 5] = (Fin (- 1), Fin 7)
   \<and> js_sub (Fin 7) (Fin (- 1)) = Fin 8
   \<and> insideBounds (Fin (- 1)) (Fin 7) ([1, 2, 3, 4, 5] ! 1)
   \<and> js_abs (js_sub (Fin ([1, 2, 3, 4, 5] ! 1)) (js_add (Fin (- 1)) (js_div (Fin 8) (Fin 2))))
       = Fin 1
   \<and> js_mul (js_div (Fin 1) (Fin 8)) (Fin 0.5) = Fin (1 / 16)
   \<and> anomalyScores (detectAnomaliesWithIQR defaultDetectorConfig [1, 2, 3, 4, 5]) 1
       = Some (Fin (1 / 16))"
proof -
  have i: "(1::nat) < length [1, 2, 3, 4, 5 :: real]"
    by simp
  have b: "iqrBounds defaultDetectorConfig [1, 2, 3, 4, 5] = (Fin (- 1), Fin 7)"
    by (rule iqrBounds_one_to_five)
  have w: "js_sub (Fin 7) (Fin (- 1)) = Fin 8"
    by (simp add: js_ops dbl_eval)
  have ins: "insideBounds (Fin (- 1)) (Fin 7) ([1, 2, 3, 4, 5] ! 1)"
    by (simp add: insideBounds_def js_ops dbl_eval)
  have dist: "js_abs (js_sub (Fin ([1, 2, 3, 4, 5] ! 1))
      (js_add (Fin (- 1)) (js_div (Fin 8) (Fin 2)))) = Fin 1"
    by (simp add: js_ops dbl_eval)
  have sc: "js_mul (js_div (Fin 1) (Fin 8)) (Fin 0.5) = Fin (1 / 16)"
    by (simp add: js_ops dbl_eval)
  from iqr_score_inside_bounds [OF i b w _ ins] obtain d s
    where d: "js_abs (js_sub (Fin ([1, 2, 3, 4, 5] ! 1))
        (js_add (Fin (- 1)) (js_div (Fin 8) (Fin 2)))) = Fin d"
      and s: "anomalyScores (detectAnomaliesWithIQR defaultDetectorConfig [1, 2, 3, 4, 5]) 1
        = Some (Fin s)"
      and f: "js_mul (js_div (Fin d) (Fin 8)) (Fin 0.5) = Fin s"
    by auto
  from d dist have "d = 1"
    by simp
  with f sc have "s = 1 / 16"
    by simp
  with i b w ins dist sc s show ?thesis
    by simp
qed

section \<open>Properties of the ensemble\<close>

lemma half_ceiling: "nat \<lceil>real m / 2\<rceil> = (m + 1) div 2"
  by linarith

lemma update_fresh: "name \<notin> fst ` set al \<Longrightarrow> AList.update name r al = al @ [(name, r)]"
  by (induction al) auto

lemma collectIndex_indices: "fst (collectIndex m j st) = setAdd j (fst st)"
  by (cases st) (simp add: collectIndex_def Let_def split: option.split nat.split)

lemma collectIndex_counts:
  "fst (snd (collectIndex m j st)) =
     (fst (snd st))(j \<mapsto> Suc (case fst (snd st) j of None \<Rightarrow> 0 | Some c \<Rightarrow> c))"
  by (cases st) (simp add: collectIndex_def Let_def split: option.split nat.split)

lemma collectMethod_indices:
  "set (fst (fold (collectIndex m) js st)) = set (fst st) \<union> set js"
  by (induction js arbitrary: st) (auto simp: collectIndex_indices setAdd_def)

lemma collectMethod_counts:
  "fst (snd (fold (collectIndex m) js st)) i =
     (if i \<in> set js
      then Some ((case fst (snd st) i of None \<Rightarrow> 0 | Some c \<Rightarrow> c) + count_list js i)
      else fst (snd st) i)"
  by (induction js arbitrary: st) (auto simp: collectIndex_counts)

lemma collectAll_snoc: "collectAll (ms @ [(name, r)]) = collectMethod r (collectAll ms)"
  by (simp add: collectAll_def)

lemma majority_member:
  "ensembleMethod cfg = ''majority'' \<Longrightarrow>
   index \<in> set (combineAnomalyDetections cfg ms) \<longleftrightarrow>
     index \<in> set (fst (collectAll ms)) \<and>
     (\<exists>c. fst (snd (collectAll ms)) index = Some c \<and> (length ms + 1) div 2 \<le> c)"
  by (cases "collectAll ms")
     (auto simp: combineAnomalyDetections_def Let_def half_ceiling split: option.splits)

text \<open>
  C3. For the same method results, the indices that \<open>combineAnomalyDetections\<close> returns
  under the policy \<open>majority\<close> are among those it returns under the policy \<open>any\<close>, and
  there are no more of them.
\<close>

theorem majority_within_any:
  "set (combineAnomalyDetections (cfg\<lparr>ensembleMethod := ''majority''\<rparr>) ms)
     \<subseteq> set (combineAnomalyDetections (cfg\<lparr>ensembleMethod := ''any''\<rparr>) ms)
   \<and> length (combineAnomalyDetections (cfg\<lparr>ensembleMethod := ''majority''\<rparr>) ms)
     \<le> length (combineAnomalyDetections (cfg\<lparr>ensembleMethod := ''any''\<rparr>) ms)"
  by (simp add: combineAnomalyDetections_def Let_def split: prod.split)

text \<open>
  C4. Under the policy \<open>majority\<close>, an index that is in the combined result stays in it
  when one more method, under a new name, is added whose result flags that index too.
\<close>

theorem majority_monotone:
  assumes maj: "ensembleMethod cfg = ''majority''"
    and new: "name \<notin> fst ` set ms"
    and old: "index \<in> set (combineAnomalyDetections cfg ms)"
    and flagged: "index \<in> set (anomalyIndices r)"
  shows "index \<in> set (combineAnomalyDetections cfg (AList.update name r ms))"
proof -
  from old maj obtain c where
    c: "fst (snd (collectAll ms)) index = Some c" "(length ms + 1) div 2 \<le> c"
    by (auto simp: majority_member)
  have step: "collectAll (AList.update name r ms) = collectMethod r (collectAll ms)"
    using new by (simp add: update_fresh collectAll_snoc)
  have "index \<in> set (fst (collectAll (AList.update name r ms)))"
    unfolding step collectMethod_def using flagged by (simp add: collectMethod_indices)
  moreover have "fst (snd (collectAll (AList.update name r ms))) index =
      Some (c + count_list (anomalyIndices r) index)"
    unfolding step collectMethod_def using flagged c(1) by (simp add: collectMethod_counts)
  moreover have "0 < count_list (anomalyIndices r) index"
    using flagged count_list_0_iff [of "anomalyIndices r" index]
    by (cases "count_list (anomalyIndices r) index") auto
  moreover have "length (AList.update name r ms) = Suc (length ms)"
    using new by (simp add: update_fresh)
  ultimately show ?thesis
    using c(2) maj by (simp add: majority_member)
qed

theorem majority_monotone_witness:
  "ensembleMethod defaultDetectorConfig = ''majority''
   \<and> ''isolationForest'' \<notin> fst ` set [(''zScore'', mockZScore), (''iqr'', mockIqr)]
   \<and> 11 \<in> set (combineAnomalyDetections defaultDetectorConfig
                  [(''zScore'', mockZScore), (''iqr'', mockIqr)])
   \<and> 11 \<in> set (anomalyIndices mockIsolationForest)
   \<and> 11 \<in> set (combineAnomalyDetections defaultDetectorConfig
                  (AList.update ''isolationForest'' mockIsolationForest
                     [(''zScore'', mockZScore), (''iqr'', mockIqr)]))"
proof -
  have maj: "ensembleMethod defaultDetectorConfig = ''majority''"
    by (simp add: defaultDetectorConfig_def)
  have new: "''isolationForest'' \<notin> fst ` set [(''zScore'', mockZScore), (''iqr'', mockIqr)]"
    by simp
  have old: "11 \<in> set (combineAnomalyDetections defaultDetectorConfig
      [(''zScore'', mockZScore), (''iqr'', mockIqr)])"
    by (simp add: combineAnomalyDetections_def defaultDetectorConfig_def collectAll_def
        collectMethod_def collectIndex_def setAdd_def scoreOr_def js_ops dbl_eval averageScores_def
        mockZScore_def mockIqr_def Let_def)
  have flagged: "11 \<in> set (anomalyIndices mockIsolationForest)"
    by (simp add: mockIsolationForest_def)
  from maj new old flagged majority_monotone [OF maj new old flagged] show ?thesis
    by blast
qed

text \<open>
  The unit test of \<open>combineAnomalyDetections\<close>: with the three mock results, the policy
  \<open>majority\<close> keeps 11 (and 14) and drops 5 and 2; the policy \<open>any\<close> keeps all four.
\<close>

lemma combine_test_majority:
  "combineAnomalyDetections defaultDetectorConfig
     [(''zScore'', mockZScore), (''iqr'', mockIqr), (''isolationForest'', mockIsolationForest)]
   = [11, 14]"
  by (simp add: combineAnomalyDetections_def defaultDetectorConfig_def collectAll_def
      collectMethod_def collectIndex_def setAdd_def scoreOr_def js_ops dbl_eval averageScores_def
      mockZScore_def mockIqr_def mockIsolationForest_def Let_def)

lemma combine_test_any:
  "combineAnomalyDetections (defaultDetectorConfig\<lparr>ensembleMethod := ''any''\<rparr>)
     [(''zScore'', mockZScore), (''iqr'', mockIqr), (''isolationForest'', mockIsolationForest)]
   = [11, 14, 5, 2]"
  by (simp add: combineAnomalyDetections_def defaultDetectorConfig_def collectAll_def
      collectMethod_def collectIndex_def setAdd_def scoreOr_def js_ops dbl_eval averageScores_def
      mockZScore_def mockIqr_def mockIsolationForest_def Let_def)

section \<open>Properties of detectDividendAnomalies\<close>

subsection \<open>The anomaly records\<close>

lemma set_insertByScore: "set (insertByScore a bs) = insert a (set bs)"
  by (induction bs) auto

lemma set_sortAnomalies: "set (sortAnomalies as) = set as"
  by (induction as) (simp_all add: sortAnomalies_def set_insertByScore)

lemma length_insertByScore: "length (insertByScore a bs) = Suc (length bs)"
  by (induction bs) auto

lemma length_sortAnomalies: "length (sortAnomalies as) = length as"
  by (induction as) (simp_all add: sortAnomalies_def length_insertByScore)

lemma buildAnomaly_type:
  "type_a (buildAnomaly ms values dates i) =
     (if js_gt (value_a (buildAnomaly ms values dates i)) (calculateMean values)
      then ''high_value'' else ''low_value'')"
  by (simp add: buildAnomaly_def Let_def split: prod.split)

lemma buildAnomaly_severity:
  "severity (buildAnomaly ms values dates i) =
     severityOf (anomalyScore (buildAnomaly ms values dates i))"
  by (simp add: buildAnomaly_def Let_def split: prod.split)

text \<open>
  Every record that \<open>analyse\<close> builds from a series has the type \<open>high_value\<close> exactly
  when its value is greater than the mean of the values of that series, and its severity
  follows its score.
\<close>

lemma analyse_type_and_severity:
  "\<forall>a \<in> set (anomalies (analyse env cfg dividendData)).
     (type_a a = ''high_value''
        \<longleftrightarrow> js_gt (value_a a) (calculateMean (map value dividendData)))
   \<and> (type_a a = ''low_value''
        \<longleftrightarrow> \<not> js_gt (value_a a) (calculateMean (map value dividendData)))
   \<and> (js_gt (anomalyScore a) (Fin 0.8) \<longrightarrow> severity a = ''high'')
   \<and> (\<not> js_gt (anomalyScore a) (Fin 0.8) \<and> js_gt (anomalyScore a) (Fin 0.5)
        \<longrightarrow> severity a = ''medium'')
   \<and> (\<not> js_gt (anomalyScore a) (Fin 0.8) \<and> \<not> js_gt (anomalyScore a) (Fin 0.5)
        \<longrightarrow> severity a = ''low'')"
  by (auto simp: analyse_def buildAnomalies_def set_sortAnomalies Let_def buildAnomaly_type
      buildAnomaly_severity severityOf_def)

text \<open>The analysis of the sample series, step by step.\<close>

lemma sqrt_nine: "sqrt 9 = 3"
  using real_sqrt_abs [of 3] by simp

lemma spike_values: "map value spikeSeries = [1, 1, 1, 1, 1, 1, 1, 1, 1, 11]"
  by (simp add: spikeSeries_def)

lemma spike_mean: "calculateMean [1, 1, 1, 1, 1, 1, 1, 1, 1, 11] = Fin 2"
  by (simp add: calculateMean_def js_ops dbl_eval)

lemma spike_stdDev: "calculateStdDev [1, 1, 1, 1, 1, 1, 1, 1, 1, 11] (Some (Fin 2)) = Fin 3"
  by (simp add: calculateStdDev_def sqrt_nine js_ops dbl_eval)

lemma spike_zScore:
  "anomalyIndices (detectAnomaliesWithZScore defaultDetectorConfig
      [1, 1, 1, 1, 1, 1, 1, 1, 1, 11]) = [9]"
  "anomalyScores (detectAnomaliesWithZScore defaultDetectorConfig
      [1, 1, 1, 1, 1, 1, 1, 1, 1, 11]) 9 = Some (Fin (5404319552844595 / 9007199254740992))"
  by (simp_all add: detectAnomaliesWithZScore_def zScoresOf_def spike_mean spike_stdDev
      zScoreStep_def defaultDetectorConfig_def js_ops dbl_eval Let_def)

lemma spike_bounds:
  "iqrBounds defaultDetectorConfig [1, 1, 1, 1, 1, 1, 1, 1, 1, 11] = (Fin 1, Fin 1)"
  by (simp add: iqrBounds_def js_index_def Let_def defaultDetectorConfig_def js_ops dbl_eval)

lemma spike_iqr:
  "anomalyIndices (detectAnomaliesWithIQR defaultDetectorConfig
      [1, 1, 1, 1, 1, 1, 1, 1, 1, 11]) = [9]"
  "anomalyScores (detectAnomaliesWithIQR defaultDetectorConfig
      [1, 1, 1, 1, 1, 1, 1, 1, 1, 11]) 9 = Some (Fin 1)"
  by (simp_all add: detectAnomaliesWithIQR_def spike_bounds iqrStep_def js_ops dbl_eval Let_def)

lemma spike_combined:
  "combineAnomalyDetections defaultDetectorConfig
     (runMethods quietEnv defaultDetectorConfig [1, 1, 1, 1, 1, 1, 1, 1, 1, 11]) = [9]"
  by (simp add: combineAnomalyDetections_def runMethods_def collectAll_def collectMethod_def
      collectIndex_def spike_zScore spike_iqr setAdd_def scoreOr_def js_ops dbl_eval Let_def
      quietEnv_def averageScores_def)

lemma spike_record:
  "buildAnomaly (runMethods quietEnv defaultDetectorConfig [1, 1, 1, 1, 1, 1, 1, 1, 1, 11])
     [1, 1, 1, 1, 1, 1, 1, 1, 1, 11] (map date spikeSeries) 9 = spikeAnomaly"
  by (simp add: buildAnomaly_def runMethods_def scoreStep_def spike_zScore spike_iqr
      scoreOr_def Let_def quietEnv_def js_index_def spike_mean js_ops dbl_eval
      severityOf_def spikeSeries_def spikeAnomaly_def)

lemma spike_anomalies:
  "anomalies (analyse quietEnv defaultDetectorConfig spikeSeries) = [spikeAnomaly]"
  by (simp add: analyse_def Let_def spike_values spike_combined buildAnomalies_def
      spike_record sortAnomalies_def)

lemma shifted_key:
  "cacheKey (numberToString quietEnv) shiftedSeries = cacheKey (numberToString quietEnv) spikeSeries"
  by (simp add: cacheKey_def quietEnv_def sampleToString_def shiftedSeries_def spikeSeries_def)

lemma shifted_mean: "calculateMean (map value shiftedSeries) = Fin 97"
  by (simp add: shiftedSeries_def calculateMean_def js_ops dbl_eval)

subsection \<open>Too little data\<close>

lemma length_cacheKey: "length (cacheKey toStr dd) = length dd"
  by (simp add: cacheKey_def)

text \<open>A call stores a result only under the key of a series of at least five records.\<close>

lemma detect_cache_step:
  "cache (snd (detectDividendAnomalies env det dividendData)) k = Some e \<Longrightarrow>
   cache det k = Some e \<or> 5 \<le> length k"
  by (auto simp: detectDividendAnomalies_def detectBody_def Let_def length_cacheKey
      split: option.splits if_splits prod.splits)

lemma reachable_cache_keys:
  "reachable det \<Longrightarrow> cache det k = Some e \<Longrightarrow> 5 \<le> length k"
proof (induction arbitrary: k e rule: reachable.induct)
  case (fresh cfg)
  then show ?case by (simp add: newDetector_def)
next
  case (called det env dividendData)
  from detect_cache_step [OF called.prems] called.IH show ?case by blast
next
  case (cleared det)
  then show ?case by (simp add: clearCache_def)
qed

text \<open>
  C9. For a missing series and for a series of fewer than five records,
  \<open>detectDividendAnomalies\<close> returns (the exception of the missing series is caught) a
  result with no anomalies, a count of 0, a percentage of 0 and no methods. A cached result
  cannot be returned instead, since the cache of a detector never holds one for so short a
  series.
\<close>

theorem insufficient_data_degrades:
  assumes "reachable det"
    and "dividendData = None \<or> (\<exists>dd. dividendData = Some dd \<and> length dd < 5)"
  shows "anomalies (fst (detectDividendAnomalies env det dividendData)) = []
    \<and> count (stats (fst (detectDividendAnomalies env det dividendData))) = 0
    \<and> percentage (stats (fst (detectDividendAnomalies env det dividendData))) = Fin 0
    \<and> methods (fst (detectDividendAnomalies env det dividendData)) = []"
proof (cases dividendData)
  case None
  then show ?thesis
    by (simp add: detectDividendAnomalies_def detectBody_def degradedResult_def)
next
  case (Some dd)
  with assms(2) have short: "length dd < 5"
    by simp
  have miss: "cache det (cacheKey (numberToString env) dd) = None"
  proof (cases "cache det (cacheKey (numberToString env) dd)")
    case None
    then show ?thesis .
  next
    case (Some e)
    from reachable_cache_keys [OF assms(1) Some] short show ?thesis
      by (simp add: length_cacheKey)
  qed
  show ?thesis
    using Some short miss
    by (simp add: detectDividendAnomalies_def detectBody_def degradedResult_def Let_def)
qed

theorem insufficient_data_degrades_witness:
  "reachable (snd (detectDividendAnomalies quietEnv (newDetector defaultDetectorConfig)
                     (Some spikeSeries)))
   \<and> length (take 4 spikeSeries) < 5
   \<and> anomalies (fst (detectDividendAnomalies quietEnv
        (snd (detectDividendAnomalies quietEnv (newDetector defaultDetectorConfig)
                (Some spikeSeries)))
        (Some (take 4 spikeSeries)))) = []
   \<and> methods (fst (detectDividendAnomalies quietEnv
        (snd (detectDividendAnomalies quietEnv (newDetector defaultDetectorConfig)
                (Some spikeSeries)))
        (Some (take 4 spikeSeries)))) = []"
proof -
  have r: "reachable (snd (detectDividendAnomalies quietEnv (newDetector defaultDetectorConfig)
      (Some spikeSeries)))"
    by (rule reachable.called) (rule reachable.fresh)
  have short: "length (take 4 spikeSeries) < 5"
    by simp
  from insufficient_data_degrades [OF r, of "Some (take 4 spikeSeries)" quietEnv] r short
  show ?thesis
    by simp
qed

subsection \<open>Where the returned records come from\<close>

text \<open>
  A call returns the degraded result, the analysis of its series, or a cached result; a
  cached result is the analysis of an earlier series with the same cache key. So every
  anomaly record that a call returns was built by \<open>analyse\<close>.
\<close>

lemma detect_config: "config (snd (detectDividendAnomalies env det dividendData)) = config det"
  by (auto simp: detectDividendAnomalies_def detectBody_def Let_def
      split: option.splits if_splits prod.splits)

lemma detect_cache_origin:
  "cache (snd (detectDividendAnomalies env det dividendData)) k = Some (r, t) \<Longrightarrow>
   cache det k = Some (r, t)
   \<or> (\<exists>dd. dividendData = Some dd \<and> 5 \<le> length dd
          \<and> k = cacheKey (numberToString env) dd \<and> r = analyse env (config det) dd)"
  by (auto simp: detectDividendAnomalies_def detectBody_def Let_def
      split: option.splits if_splits prod.splits)

lemma reachable_cache_results:
  "reachable det \<Longrightarrow> cache det k = Some (r, t) \<Longrightarrow>
   \<exists>env dd. 5 \<le> length dd \<and> k = cacheKey (numberToString env) dd
            \<and> r = analyse env (config det) dd"
proof (induction arbitrary: k r t rule: reachable.induct)
  case (fresh cfg)
  then show ?case by (simp add: newDetector_def)
next
  case (called det env dividendData)
  from detect_cache_origin [OF called.prems] called.IH show ?case
    by (auto simp: detect_config)
next
  case (cleared det)
  then show ?case by (simp add: clearCache_def)
qed

lemma detect_result_cases:
  "fst (detectDividendAnomalies env det dividendData)
     = degradedResult\<lparr>error := Some ''TypeError''\<rparr> \<and> dividendData = None
   \<or> fst (detectDividendAnomalies env det dividendData) = degradedResult
   \<or> (\<exists>dd. dividendData = Some dd
          \<and> fst (detectDividendAnomalies env det dividendData) = analyse env (config det) dd)
   \<or> (\<exists>dd t. dividendData = Some dd
          \<and> cache det (cacheKey (numberToString env) dd)
              = Some (fst (detectDividendAnomalies env det dividendData), t))"
  by (auto simp: detectDividendAnomalies_def detectBody_def Let_def
      split: option.splits if_splits prod.splits)

lemma detect_result_built:
  assumes "reachable det"
    and "a \<in> set (anomalies (fst (detectDividendAnomalies env det dividendData)))"
  shows "\<exists>env' dd dd'. dividendData = Some dd
     \<and> cacheKey (numberToString env') dd' = cacheKey (numberToString env) dd
     \<and> a \<in> set (anomalies (analyse env' (config det) dd'))"
  using detect_result_cases [of env det dividendData] assms(2)
proof (elim disjE exE conjE)
  fix dd t
  assume dd: "dividendData = Some dd"
    and hit: "cache det (cacheKey (numberToString env) dd) =
       Some (fst (detectDividendAnomalies env det dividendData), t)"
  from reachable_cache_results [OF assms(1) hit] assms(2) dd show ?thesis
    by metis
qed (auto simp: degradedResult_def)

subsection \<open>The cache key\<close>

text \<open>
  A call that does not find its key in the cache analyses the series it was given, so its
  records have their type relative to the mean of that series.
\<close>

lemma detect_without_hit:
  assumes "\<not> useCache (config det) \<or> cache det (cacheKey (numberToString env) dd) = None"
  shows "fst (detectDividendAnomalies env det (Some dd))
         = (if length dd < 5 then degradedResult else analyse env (config det) dd)"
  using assms
  by (auto simp: detectDividendAnomalies_def detectBody_def Let_def
      split: option.splits if_splits prod.splits)

lemma detect_without_hit_type:
  assumes "\<not> useCache (config det) \<or> cache det (cacheKey (numberToString env) dd) = None"
    and "a \<in> set (anomalies (fst (detectDividendAnomalies env det (Some dd))))"
  shows "type_a a = (if js_gt (value_a a) (calculateMean (map value dd))
                     then ''high_value'' else ''low_value'')"
    and "severity a = severityOf (anomalyScore a)"
  using assms(2) unfolding detect_without_hit [OF assms(1)]
  by (auto simp: degradedResult_def analyse_def buildAnomalies_def set_sortAnomalies Let_def
      buildAnomaly_type buildAnomaly_severity split: if_splits)

text \<open>
  The cache key joins the date and the value of a record without a separator, so two
  different series can have the same key: the dates \<open>2024-01-15\<close> with the values 1 and
  11 give the same texts as the dates \<open>2024-01-1\<close> with the values 51 and 511.
\<close>

lemma sample_lengths: "length spikeSeries = 10" "length shiftedSeries = 10"
  by (simp_all add: spikeSeries_def shiftedSeries_def)

lemma spike_first_call:
  "snd (detectDividendAnomalies quietEnv (newDetector defaultDetectorConfig) (Some spikeSeries))
   = \<lparr>config = defaultDetectorConfig,
      cache = [cacheKey (numberToString quietEnv) spikeSeries
                 \<mapsto> (analyse quietEnv defaultDetectorConfig spikeSeries, 0)],
      initialized = True\<rparr>"
  by (simp add: detectDividendAnomalies_def detectBody_def newDetector_def Let_def
      sample_lengths defaultDetectorConfig_def quietEnv_def)

lemma shifted_second_call:
  "fst (detectDividendAnomalies quietEnv
     (snd (detectDividendAnomalies quietEnv (newDetector defaultDetectorConfig)
             (Some spikeSeries)))
     (Some shiftedSeries))
   = analyse quietEnv defaultDetectorConfig spikeSeries"
  unfolding spike_first_call
  by (simp add: detectDividendAnomalies_def detectBody_def Let_def shifted_key isCacheValid_def)
     (simp add: defaultDetectorConfig_def quietEnv_def)

text \<open>
  C5. The claim is that every anomaly record that \<open>detectDividendAnomalies\<close> returns has
  the type \<open>high_value\<close> exactly when its value is greater than the mean of the values of
  the series. A new detector with the default configuration is called with the first
  sample series and then with the second one: the second call finds the key of its series
  in the cache and returns the record of the first series, of type \<open>high_value\<close> with the
  value 11, while the mean of the values of the second series is 97.
\<close>

theorem cached_records_of_another_series:
  "anomalies (fst (detectDividendAnomalies quietEnv
      (snd (detectDividendAnomalies quietEnv (newDetector defaultDetectorConfig)
              (Some spikeSeries)))
      (Some shiftedSeries))) = [spikeAnomaly]
   \<and> type_a spikeAnomaly = ''high_value''
   \<and> value_a spikeAnomaly = Fin 11
   \<and> calculateMean (map value shiftedSeries) = Fin 97
   \<and> \<not> js_gt (value_a spikeAnomaly) (calculateMean (map value shiftedSeries))"
  by (simp add: shifted_second_call spike_anomalies shifted_mean)
     (simp add: spikeAnomaly_def js_ops dbl_eval)

section \<open>Properties of the recommendation engine\<close>

text \<open>
  C6. With the default thresholds (0.7, 0.55, -0.55, -0.7) a combined score of 0.75 is
  classified \<open>strong_buy\<close>, 0.60 \<open>buy\<close>, 0.0 \<open>hold\<close>, -0.60 \<open>sell\<close> and -0.75
  \<open>strong_sell\<close>.
\<close>

theorem determineRecommendation_default_scenarios:
  "determineRecommendation defaultEngineConfig (Fin 0.75) = ''strong_buy''
   \<and> determineRecommendation defaultEngineConfig (Fin 0.60) = ''buy''
   \<and> determineRecommendation defaultEngineConfig (Fin 0.0) = ''hold''
   \<and> determineRecommendation defaultEngineConfig (Fin (- 0.60)) = ''sell''
   \<and> determineRecommendation defaultEngineConfig (Fin (- 0.75)) = ''strong_sell''"
  by (simp add: determineRecommendation_def defaultEngineConfig_def js_ops dbl_eval)

text \<open>
  C10. \<open>calculateAnomalyScore\<close> tells a missing detection result from an empty one: a
  missing argument, or one without the list of anomalies, scores exactly 0; a present list
  that is empty scores exactly 0.1.
\<close>

theorem calculateAnomalyScore_missing_vs_empty:
  "calculateAnomalyScore None = Fin 0
   \<and> calculateAnomalyScore (Some \<lparr>reported = None\<rparr>) = Fin 0
   \<and> calculateAnomalyScore (Some \<lparr>reported = Some []\<rparr>) = Fin 0.1"
  by (simp add: calculateAnomalyScore_def)

subsection \<open>The weights for a low risk tolerance\<close>






end
